theory Spec2Isabelle
  imports Main "HOL-Library.Sublist"
begin

section \<open>Text primitives of the Python source\<close>

text \<open>
  The program works on Python \<open>str\<close> values. A text is modelled as a \<open>string\<close>, each
  \<open>char\<close> read as a Unicode code point below 256. On that range the classes used by
  \<open>str.lower\<close>, \<open>str.strip\<close>, \<open>bytes.split\<close> and by the \<open>re\<close> escapes \<open>\s\<close>, \<open>\w\<close>, \<open>\d\<close>
  are the ones written out below.
\<close>

definition code :: "char \<Rightarrow> nat" where
  "code c = of_char c"

definition is_digit :: "char \<Rightarrow> bool" where
  "is_digit c = (48 \<le> code c \<and> code c \<le> 57)"

definition is_upper_az :: "char \<Rightarrow> bool" where
  "is_upper_az c = (65 \<le> code c \<and> code c \<le> 90)"

definition is_lower_az :: "char \<Rightarrow> bool" where
  "is_lower_az c = (97 \<le> code c \<and> code c \<le> 122)"

text \<open>The class \<open>[0-9A-Z]\<close> under \<open>re.I\<close>.\<close>

definition is_alnum_ci :: "char \<Rightarrow> bool" where
  "is_alnum_ci c = (is_digit c \<or> is_upper_az c \<or> is_lower_az c)"

text \<open>The escape \<open>\w\<close> of a \<open>str\<close> pattern: alphanumeric code points and the underscore.\<close>

definition is_word :: "char \<Rightarrow> bool" where
  "is_word c = (is_alnum_ci c \<or> code c = 95
     \<or> code c \<in> {170, 178, 179, 181, 185, 186, 188, 189, 190}
     \<or> (192 \<le> code c \<and> code c \<le> 214)
     \<or> (216 \<le> code c \<and> code c \<le> 246)
     \<or> 248 \<le> code c)"

text \<open>The escape \<open>\s\<close> of a \<open>str\<close> pattern, which is also what \<open>str.strip()\<close> removes.\<close>

definition is_space :: "char \<Rightarrow> bool" where
  "is_space c = ((9 \<le> code c \<and> code c \<le> 13) \<or> (28 \<le> code c \<and> code c \<le> 32)
     \<or> code c = 133 \<or> code c = 160)"

text \<open>The separators of \<open>bytes.split()\<close>.\<close>

definition is_bspace :: "char \<Rightarrow> bool" where
  "is_bspace c = ((9 \<le> code c \<and> code c \<le> 13) \<or> code c = 32)"

definition lower_char :: "char \<Rightarrow> char" where
  "lower_char c =
     (if is_upper_az c \<or> (192 \<le> code c \<and> code c \<le> 222 \<and> code c \<noteq> 215)
      then char_of (code c + 32) else c)"

definition lower :: "string \<Rightarrow> string" where
  "lower s = map lower_char s"

text \<open>The operator \<open>h in s\<close> on strings.\<close>

fun str_in :: "string \<Rightarrow> string \<Rightarrow> bool" where
  "str_in h [] = (h = [])"
| "str_in h (c # cs) = (prefix h (c # cs) \<or> str_in h cs)"

definition strip :: "string \<Rightarrow> string" where
  "strip s = rev (dropWhile is_space (rev (dropWhile is_space s)))"

section \<open>Status classifier\<close>

text \<open>The three tuples of \<open>STATUS_HINTS\<close>, under their keys.\<close>

definition STATUS_HINTS_delivered :: "string list" where
  "STATUS_HINTS_delivered =
     ['' delivered '', '' has been delivered'', ''was delivered'', ''delivered on'']"

definition STATUS_HINTS_shipped :: "string list" where
  "STATUS_HINTS_shipped =
     ['' shipped '', '' on the way '', '' out for delivery '', '' has shipped '']"

definition STATUS_HINTS_pending :: "string list" where
  "STATUS_HINTS_pending =
     ['' order confirmed '', '' order confirmation '', '' thanks for your order '', '' placed '']"

definition any_in :: "string list \<Rightarrow> string \<Rightarrow> bool" where
  "any_in hs s = list_ex (\<lambda>h. str_in h s) hs"

definition status_text :: "string \<Rightarrow> string \<Rightarrow> string" where
  "status_text subject body = '' '' @ lower subject @ '' '' @ lower body @ '' ''"

definition detect_status :: "string \<Rightarrow> string \<Rightarrow> bool \<Rightarrow> string" where
  "detect_status subject body has_tracking =
     (let s = status_text subject body in
      if any_in STATUS_HINTS_delivered s then ''Delivered''
      else if has_tracking \<or> any_in STATUS_HINTS_shipped s then ''Shipped''
      else if any_in STATUS_HINTS_pending s then ''Pending''
      else if str_in ''order confirmation'' s \<or> str_in ''placed'' s then ''Pending''
      else ''Pending'')"

section \<open>Tracking extractor\<close>

text \<open>
  The five compiled patterns are sequences of three kinds of item: the word boundary \<open>\b\<close>,
  one character of a class, and a greedy repetition \<open>{m,n}\<close> or \<open>+\<close> of a class (no upper
  bound is \<open>None\<close>). \<open>rmatch\<close> is the backtracking matcher at one position: a repetition
  takes as many characters as it may and gives them back one at a time. The argument
  \<open>prev\<close> is the character before the position, if any.
\<close>

datatype item = Bnd | Chr "char \<Rightarrow> bool" | Rep "char \<Rightarrow> bool" nat "nat option"

definition word_before :: "char option \<Rightarrow> bool" where
  "word_before prev = (case prev of None \<Rightarrow> False | Some c \<Rightarrow> is_word c)"

definition word_after :: "string \<Rightarrow> bool" where
  "word_after s = (case s of [] \<Rightarrow> False | c # cs \<Rightarrow> is_word c)"

definition at_boundary :: "char option \<Rightarrow> string \<Rightarrow> bool" where
  "at_boundary prev s = (word_before prev \<noteq> word_after s)"

definition may_take :: "nat option \<Rightarrow> bool" where
  "may_take hi = (hi \<noteq> Some 0)"

definition dec_hi :: "nat option \<Rightarrow> nat option" where
  "dec_hi hi = map_option (\<lambda>h. h - 1) hi"

function rmatch :: "item list \<Rightarrow> char option \<Rightarrow> string \<Rightarrow> string option" where
  "rmatch [] prev s = Some []"
| "rmatch (Bnd # r) prev s = (if at_boundary prev s then rmatch r prev s else None)"
| "rmatch (Chr P # r) prev [] = None"
| "rmatch (Chr P # r) prev (c # cs) =
     (if P c then map_option ((#) c) (rmatch r (Some c) cs) else None)"
| "rmatch (Rep P lo hi # r) prev [] = (if lo = 0 then rmatch r prev [] else None)"
| "rmatch (Rep P lo hi # r) prev (c # cs) =
     (if P c \<and> may_take hi
      then (case rmatch (Rep P (lo - 1) (dec_hi hi) # r) (Some c) cs of
              Some m \<Rightarrow> Some (c # m)
            | None \<Rightarrow> if lo = 0 then rmatch r prev (c # cs) else None)
      else if lo = 0 then rmatch r prev (c # cs) else None)"
  by pat_completeness auto
termination
  by (relation "inv_image (less_than <*lex*> less_than) (\<lambda>(r, prev, s). (length r, length s))")
     auto

text \<open>\<open>rx.search(body)\<close>: the match at the leftmost position that has one.\<close>

fun rsearch :: "item list \<Rightarrow> char option \<Rightarrow> string \<Rightarrow> string option" where
  "rsearch rx prev [] = rmatch rx prev []"
| "rsearch rx prev (c # cs) =
     (case rmatch rx prev (c # cs) of
        Some m \<Rightarrow> Some m
      | None \<Rightarrow> rsearch rx (Some c) cs)"

definition re_search :: "item list \<Rightarrow> string \<Rightarrow> string option" where
  "re_search rx body = rsearch rx None body"

definition ci :: "char \<Rightarrow> char \<Rightarrow> bool" where
  "ci a c = (lower_char c = lower_char a)"

definition RE_UPS :: "item list" where
  "RE_UPS = [Bnd, Chr (\<lambda>c. c = CHR ''1''), Chr (ci CHR ''Z''), Rep is_alnum_ci 16 (Some 16), Bnd]"

definition RE_USPS :: "item list" where
  "RE_USPS = [Bnd, Chr (\<lambda>c. c = CHR ''9''), Rep is_digit 21 (Some 22), Bnd]"

definition RE_FEDEX :: "item list" where
  "RE_FEDEX = [Bnd, Rep is_digit 12 (Some 22), Bnd]"

definition RE_DHL :: "item list" where
  "RE_DHL = [Bnd, Rep is_digit 10 (Some 10), Bnd]"

definition RE_TBA :: "item list" where
  "RE_TBA = [Bnd, Chr (ci CHR ''T''), Chr (ci CHR ''B''), Chr (ci CHR ''A''),
             Rep is_alnum_ci 1 None, Bnd]"

definition carrier_patterns :: "(string \<times> item list) list" where
  "carrier_patterns =
     [(''UPS'', RE_UPS), (''USPS'', RE_USPS), (''FedEx'', RE_FEDEX), (''DHL'', RE_DHL),
      (''Amazon Logistics'', RE_TBA)]"

text \<open>The \<open>for\<close> loop of \<open>detect_tracking\<close>, returning at the first pattern that matches.\<close>

fun detect_loop :: "(string \<times> item list) list \<Rightarrow> string \<Rightarrow> string \<times> string" where
  "detect_loop [] body = ('''', '''')"
| "detect_loop ((name, rx) # rest) body =
     (case re_search rx body of
        Some m \<Rightarrow> (name, m)
      | None \<Rightarrow> detect_loop rest body)"

definition detect_tracking :: "string \<Rightarrow> string \<times> string" where
  "detect_tracking body = detect_loop carrier_patterns body"

section \<open>Message decoder\<close>

datatype error = LookupError | IndexError | AttributeError

text \<open>
  \<open>re.sub(r"<[^>]+>", " ", h)\<close>: a tag is a \<open><\<close>, at least one character other than
  \<open>>\<close>, and the next \<open>>\<close>.
\<close>

function strip_tags :: "string \<Rightarrow> string" where
  "strip_tags [] = []"
| "strip_tags (c # cs) =
     (if c = CHR ''<'' \<and> takeWhile (\<lambda>x. x \<noteq> CHR ''>'') cs \<noteq> []
         \<and> dropWhile (\<lambda>x. x \<noteq> CHR ''>'') cs \<noteq> []
      then CHR '' '' # strip_tags (tl (dropWhile (\<lambda>x. x \<noteq> CHR ''>'') cs))
      else c # strip_tags cs)"
  by pat_completeness auto
termination
proof (relation "measure length")
  fix c :: char and cs :: string
  have "length (tl (dropWhile (\<lambda>x. x \<noteq> CHR ''>'') cs)) \<le> length cs"
    using length_dropWhile_le [of "\<lambda>x. x \<noteq> CHR ''>''" cs] by simp
  then show "(tl (dropWhile (\<lambda>x. x \<noteq> CHR ''>'') cs), c # cs) \<in> measure length"
    by simp
qed simp_all

text \<open>\<open>re.sub(r"\s+", " ", t)\<close>.\<close>

function collapse_ws :: "string \<Rightarrow> string" where
  "collapse_ws [] = []"
| "collapse_ws (c # cs) =
     (if is_space c then CHR '' '' # collapse_ws (dropWhile is_space cs)
      else c # collapse_ws cs)"
  by pat_completeness auto
termination
proof (relation "measure length")
  fix c :: char and cs :: string
  show "(dropWhile is_space cs, c # cs) \<in> measure length"
    using length_dropWhile_le [of is_space cs] by simp
qed simp_all

text \<open>
  \<open>html.unescape\<close> returns its argument when it holds no \<open>&\<close>; otherwise it substitutes
  the character references, through a table of the standard library that is a parameter
  here (\<open>charref_sub\<close>).
\<close>

definition unescape :: "(string \<Rightarrow> string) \<Rightarrow> string \<Rightarrow> string" where
  "unescape charref_sub s = (if CHR ''&'' \<notin> set s then s else charref_sub s)"

definition html_to_text :: "(string \<Rightarrow> string) \<Rightarrow> string \<Rightarrow> string" where
  "html_to_text charref_sub h = unescape charref_sub (collapse_ws (strip_tags h))"

text \<open>
  A parsed message as \<open>get_body\<close> and \<open>main\<close> use it. \<open>walk\<close> is the list that
  \<open>msg.walk()\<close> yields, the message itself first. For each part, \<open>content_type\<close> is
  \<open>get_content_type()\<close> and \<open>decoded\<close> is the value of
  \<open>get_payload(decode=True).decode(get_content_charset() or "utf-8", "ignore")\<close>,
  or the exception it raises (a container part has no payload to decode, an unknown
  character set has no codec).
\<close>

record part =
  content_type :: string
  decoded :: "error + string"

record message =
  headers :: "(string \<times> string) list"
  is_multipart :: bool
  walk :: "part list"
  payload :: "error + string"

text \<open>The first loop of \<open>get_body\<close>: \<open>try: return ... except: pass\<close> on every plain-text part.\<close>

fun plain_loop :: "part list \<Rightarrow> string option" where
  "plain_loop [] = None"
| "plain_loop (p # ps) =
     (if content_type p = ''text/plain''
      then (case decoded p of Inr t \<Rightarrow> Some t | Inl e \<Rightarrow> plain_loop ps)
      else plain_loop ps)"

fun html_loop :: "(string \<Rightarrow> string) \<Rightarrow> part list \<Rightarrow> string option" where
  "html_loop charref_sub [] = None"
| "html_loop charref_sub (p # ps) =
     (if content_type p = ''text/html''
      then (case decoded p of Inr h \<Rightarrow> Some (html_to_text charref_sub h)
            | Inl e \<Rightarrow> html_loop charref_sub ps)
      else html_loop charref_sub ps)"

definition get_body :: "(string \<Rightarrow> string) \<Rightarrow> message \<Rightarrow> string" where
  "get_body charref_sub msg =
     (if is_multipart msg
      then (case plain_loop (walk msg) of
              Some t \<Rightarrow> t
            | None \<Rightarrow> (case html_loop charref_sub (walk msg) of
                        Some t \<Rightarrow> t
                      | None \<Rightarrow> ''''))
      else (case payload msg of Inr t \<Rightarrow> t | Inl e \<Rightarrow> ''''))"

text \<open>
  \<open>dec\<close>: \<open>decode_header\<close> splits a header into chunks, each bytes or text, with its
  declared character set if it has one. \<open>codec\<close> is the codec registry: \<open>None\<close> for a name
  it does not know, where \<open>bytes.decode\<close> raises \<open>LookupError\<close>; with the handler
  \<open>"ignore"\<close> a codec that exists does not raise.
\<close>

datatype chunk = BytesChunk string | StrChunk string

type_synonym codecs = "string \<Rightarrow> (string \<Rightarrow> string) option"

definition or_utf8 :: "string option \<Rightarrow> string" where
  "or_utf8 enc = (case enc of None \<Rightarrow> ''utf-8'' | Some e \<Rightarrow> if e = '''' then ''utf-8'' else e)"

fun dec_loop :: "codecs \<Rightarrow> (chunk \<times> string option) list \<Rightarrow> string list \<Rightarrow> error + string" where
  "dec_loop codec [] out = Inr (concat out)"
| "dec_loop codec ((StrChunk t, enc) # rest) out = dec_loop codec rest (out @ [t])"
| "dec_loop codec ((BytesChunk b, enc) # rest) out =
     (case codec (or_utf8 enc) of
        None \<Rightarrow> Inl LookupError
      | Some f \<Rightarrow> dec_loop codec rest (out @ [f b]))"

definition dec ::
  "(string \<Rightarrow> (chunk \<times> string option) list) \<Rightarrow> codecs \<Rightarrow> string \<Rightarrow> error + string" where
  "dec decode_header codec s =
     (if s = '''' then Inr '''' else dec_loop codec (decode_header s) [])"

section \<open>Mailbox search\<close>

text \<open>
  The mail store is what \<open>imaplib\<close> returns for a request: \<open>imap_search\<close> maps the search
  criterion to \<open>(typ, data)\<close>, \<open>imap_fetch\<close> maps a message id to \<open>(typ, msg_data)\<close>. An
  element of \<open>data\<close> is bytes or \<open>None\<close>; an element of \<open>msg_data\<close> is \<open>None\<close>, bytes, or
  the pair of the response envelope and the raw message.
\<close>

datatype fetch_item = NoItem | BytesItem string | PairItem string string

record imap =
  imap_search :: "string \<Rightarrow> string \<times> string option list"
  imap_fetch :: "string \<Rightarrow> string \<times> fetch_item list"

text \<open>\<open>bytes.split()\<close>: the maximal runs of characters that are not separators.\<close>

fun split_acc :: "string \<Rightarrow> string \<Rightarrow> string list" where
  "split_acc cur [] = (if cur = [] then [] else [cur])"
| "split_acc cur (c # cs) =
     (if is_bspace c then (if cur = [] then split_acc [] cs else cur # split_acc [] cs)
      else split_acc (cur @ [c]) cs)"

definition split_ws :: "string \<Rightarrow> string list" where
  "split_ws s = split_acc [] s"

definition dquote :: char where
  "dquote = CHR 0x22"

definition search_criterion :: "string \<Rightarrow> string \<Rightarrow> string" where
  "search_criterion order_number site_hint =
     (if site_hint \<noteq> ''''
      then ''(TEXT '' @ [dquote] @ order_number @ [dquote] @ '' TEXT '' @ [dquote] @ site_hint
           @ [dquote] @ '')''
      else ''(TEXT '' @ [dquote] @ order_number @ [dquote] @ '')'')"

definition no_data :: "string option list \<Rightarrow> bool" where
  "no_data data = (case data of [] \<Rightarrow> True | None # ds \<Rightarrow> True | Some d # ds \<Rightarrow> d = '''')"

definition no_msg_data :: "fetch_item list \<Rightarrow> bool" where
  "no_msg_data msg_data =
     (case msg_data of [] \<Rightarrow> True | NoItem # ms \<Rightarrow> True | BytesItem b # ms \<Rightarrow> b = ''''
      | PairItem a b # ms \<Rightarrow> False)"

text \<open>
  \<open>search_latest_for_order\<close>. \<open>split()[-1]\<close> raises \<open>IndexError\<close> on an empty list, and
  \<open>msg_data[0][1]\<close> of a bytes element is an integer that \<open>message_from_bytes\<close> rejects.
\<close>

definition search_latest_for_order ::
  "(string \<Rightarrow> message) \<Rightarrow> imap \<Rightarrow> string \<Rightarrow> string \<Rightarrow> error + message option" where
  "search_latest_for_order message_from_bytes im order_number site_hint =
     (case imap_search im (search_criterion order_number site_hint) of (typ, data) \<Rightarrow>
        if typ \<noteq> ''OK'' \<or> no_data data then Inr None
        else (case split_ws (the (hd data)) of
                [] \<Rightarrow> Inl IndexError
              | i # ids \<Rightarrow>
                 (case imap_fetch im (last (i # ids)) of (typ2, msg_data) \<Rightarrow>
                    if typ2 \<noteq> ''OK'' \<or> no_msg_data msg_data then Inr None
                    else (case hd msg_data of
                            PairItem a raw \<Rightarrow> Inr (Some (message_from_bytes raw))
                          | BytesItem b \<Rightarrow> Inl AttributeError
                          | NoItem \<Rightarrow> Inr None))))"

section \<open>Pipeline driver\<close>

text \<open>
  The functions of the standard library that the driver calls and that are not modelled
  further: the header splitter, the codec registry, the character-reference table and the
  message parser.
\<close>

record stdlib =
  decode_header :: "string \<Rightarrow> (chunk \<times> string option) list"
  codec :: codecs
  charref_sub :: "string \<Rightarrow> string"
  message_from_bytes :: "string \<Rightarrow> message"

record output_record =
  order_number :: string
  site :: string
  status :: string
  tracking :: string
  carrier :: string
  email_date :: string
  subject :: string

type_synonym row = "string \<rightharpoonup> string"

text \<open>Python's \<open>a or b\<close> on values that are a string or \<open>None\<close>.\<close>

definition py_or :: "string option \<Rightarrow> string option \<Rightarrow> string option" where
  "py_or a b = (case a of None \<Rightarrow> b | Some v \<Rightarrow> if v = '''' then b else a)"

definition row_order :: "row \<Rightarrow> string" where
  "row_order r =
     strip (the (py_or (py_or (r ''order number'') (r ''order_number'')) (Some '''')))"

definition row_site :: "row \<Rightarrow> string" where
  "row_site r = strip (the (py_or (r ''site'') (Some '''')))"

text \<open>\<open>Message.get(name)\<close>: the first header of that name, compared in lower case.\<close>

fun msg_get :: "string \<Rightarrow> (string \<times> string) list \<Rightarrow> string option" where
  "msg_get name [] = None"
| "msg_get name ((k, v) # hs) = (if lower k = lower name then Some v else msg_get name hs)"

definition header_text :: "message \<Rightarrow> string \<Rightarrow> string" where
  "header_text msg name = the (py_or (msg_get name (headers msg)) (Some ''''))"

text \<open>
  \<open>not msg\<close>: no message, or a message of length zero, which for \<open>email.message.Message\<close>
  is one without headers.
\<close>

definition not_msg :: "message option \<Rightarrow> bool" where
  "not_msg m = (case m of None \<Rightarrow> True | Some msg \<Rightarrow> headers msg = [])"

definition pending_row :: "string \<Rightarrow> string \<Rightarrow> output_record" where
  "pending_row ord st =
     \<lparr>order_number = ord, site = st, status = ''Pending'', tracking = '''', carrier = '''',
      email_date = '''', subject = ''''\<rparr>"

text \<open>
  The body of the \<open>for\<close> loop of \<open>main\<close> on one row: \<open>Inr None\<close> is \<open>continue\<close> without a
  row written, \<open>Inr (Some out)\<close> is the row written, \<open>Inl e\<close> is an exception that nothing
  in \<open>main\<close> catches.
\<close>

definition main_step :: "stdlib \<Rightarrow> imap \<Rightarrow> row \<Rightarrow> error + output_record option" where
  "main_step lib im r =
     (let ord = row_order r; st = row_site r in
      if ord = '''' then Inr None
      else (case search_latest_for_order (message_from_bytes lib) im ord st of
              Inl e \<Rightarrow> Inl e
            | Inr m \<Rightarrow>
               if not_msg m then Inr (Some (pending_row ord st))
               else (case dec (decode_header lib) (codec lib) (header_text (the m) ''Subject'') of
                       Inl e \<Rightarrow> Inl e
                     | Inr subj \<Rightarrow>
                        (case dec (decode_header lib) (codec lib) (header_text (the m) ''Date'') of
                           Inl e \<Rightarrow> Inl e
                         | Inr date_hdr \<Rightarrow>
                            (let body = get_body (charref_sub lib) (the m);
                                 ct = detect_tracking body;
                                 stat = detect_status subj body (snd ct \<noteq> '''')
                             in Inr (Some \<lparr>order_number = ord, site = st, status = stat,
                                           tracking = snd ct, carrier = fst ct,
                                           email_date = date_hdr, subject = subj\<rparr>))))))"

text \<open>
  The loop over the rows of the sheet. The result is the list of rows written to the
  report, in the order written, and the exception that ended the run, if any.
\<close>

fun main_loop ::
  "stdlib \<Rightarrow> imap \<Rightarrow> row list \<Rightarrow> output_record list \<Rightarrow> output_record list \<times> error option" where
  "main_loop lib im [] written = (written, None)"
| "main_loop lib im (r # rs) written =
     (case main_step lib im r of
        Inl e \<Rightarrow> (written, Some e)
      | Inr None \<Rightarrow> main_loop lib im rs written
      | Inr (Some out) \<Rightarrow> main_loop lib im rs (written @ [out]))"

section \<open>The decision list as the specification words it\<close>

text \<open>
  The specification lists the phrases without surrounding blanks and asks whether the
  subject or the body contains one of them, case-insensitively. \<open>spec_status\<close> is that
  reading, kept apart from \<open>detect_status\<close> to compare the two.
\<close>

definition spec_delivered_phrases :: "string list" where
  "spec_delivered_phrases =
     [''delivered'', ''has been delivered'', ''was delivered'', ''delivered on'']"

definition spec_shipped_phrases :: "string list" where
  "spec_shipped_phrases = [''shipped'', ''on the way'', ''out for delivery'', ''has shipped'']"

definition spec_pending_phrases :: "string list" where
  "spec_pending_phrases =
     [''order confirmed'', ''order confirmation'', ''thanks for your order'', ''placed'']"

definition spec_contains :: "string list \<Rightarrow> string \<Rightarrow> string \<Rightarrow> bool" where
  "spec_contains ps subj body =
     list_ex (\<lambda>p. str_in p (lower subj) \<or> str_in p (lower body)) ps"

definition spec_status :: "string \<Rightarrow> string \<Rightarrow> bool \<Rightarrow> string" where
  "spec_status subj body has_tracking =
     (if spec_contains spec_delivered_phrases subj body then ''Delivered''
      else if has_tracking \<or> spec_contains spec_shipped_phrases subj body then ''Shipped''
      else if spec_contains spec_pending_phrases subj body then ''Pending''
      else ''Pending'')"

section \<open>Auxiliary notions for the properties\<close>

text \<open>The least number of characters that a pattern consumes.\<close>

fun min_len :: "item list \<Rightarrow> nat" where
  "min_len [] = 0"
| "min_len (Bnd # r) = min_len r"
| "min_len (Chr P # r) = Suc (min_len r)"
| "min_len (Rep P lo hi # r) = lo + min_len r"

text \<open>The character before the position reached after reading \<open>pre\<close>.\<close>

definition last_char :: "char option \<Rightarrow> string \<Rightarrow> char option" where
  "last_char prev pre = (if pre = [] then prev else Some (last pre))"

text \<open>The bytes of a search response that lists the ids \<open>ids\<close>, one blank between two.\<close>

fun join_ids :: "string list \<Rightarrow> string" where
  "join_ids [] = []"
| "join_ids [i] = i"
| "join_ids (i # j # ids) = i @ CHR '' '' # join_ids (j # ids)"

definition is_id :: "string \<Rightarrow> bool" where
  "is_id i = (i \<noteq> [] \<and> list_all (\<lambda>c. \<not> is_bspace c) i)"

section \<open>A mailbox and a sheet for the examples\<close>

text \<open>
  Four messages. The first is a single plain-text part with a UPS number. The second has a
  subject whose declared character set, \<open>x-unknown\<close>, no codec knows. The third is
  multipart with an HTML part only; its first walked part is the container, which has no
  payload to decode. The fourth has a plain-text part that does not decode before one that
  does, and an HTML part.
\<close>

definition shipped_message :: message where
  "shipped_message =
     \<lparr>headers = [(''Subject'', ''Your order has shipped''),
                 (''Date'', ''Mon, 01 Jan 2024 10:00:00 +0000'')],
      is_multipart = False,
      walk = [\<lparr>content_type = ''text/plain'',
               decoded = Inr ''Tracking number: 1Z999AA10123456784.''\<rparr>],
      payload = Inr ''Tracking number: 1Z999AA10123456784.''\<rparr>"

definition unknown_charset_message :: message where
  "unknown_charset_message =
     \<lparr>headers = [(''Subject'', ''=?x-unknown?B?aGVsbG8=?=''),
                 (''Date'', ''Tue, 02 Jan 2024 10:00:00 +0000'')],
      is_multipart = False,
      walk = [\<lparr>content_type = ''text/plain'', decoded = Inr ''hello''\<rparr>],
      payload = Inr ''hello''\<rparr>"

definition html_only_message :: message where
  "html_only_message =
     \<lparr>headers = [(''Subject'', ''Update on your order'')],
      is_multipart = True,
      walk = [\<lparr>content_type = ''multipart/alternative'', decoded = Inl AttributeError\<rparr>,
              \<lparr>content_type = ''text/html'',
               decoded = Inr ''<b>Your order has shipped</b>''\<rparr>],
      payload = Inl AttributeError\<rparr>"


text \<open>
  The library on these messages: \<open>decode_header\<close> gives one text chunk for a header
  without encoded words and the bytes \<open>hello\<close> with the character set \<open>x-unknown\<close> for
  the encoded subject; the registry knows \<open>utf-8\<close> only.
\<close>

definition example_lib :: stdlib where
  "example_lib =
     \<lparr>decode_header =
        (\<lambda>s. if s = ''=?x-unknown?B?aGVsbG8=?=''
             then [(BytesChunk ''hello'', Some ''x-unknown'')]
             else [(StrChunk s, None)]),
      codec = (\<lambda>name. if name = ''utf-8'' then Some (\<lambda>b. b) else None),
      charref_sub = (\<lambda>s. s),
      message_from_bytes =
        (\<lambda>raw. if raw = ''raw-7'' then shipped_message
               else if raw = ''raw-9'' then unknown_charset_message
               else html_only_message)\<rparr>"

text \<open>
  The mail store: order \<open>A-1\<close> of site \<open>acme\<close> matches the messages 3 and 7, order \<open>C-3\<close>
  matches message 9, order \<open>D-4\<close> matches message 4, which the store cannot return, and
  any other search matches nothing.
\<close>

definition example_imap :: imap where
  "example_imap =
     \<lparr>imap_search =
        (\<lambda>crit. if crit = search_criterion ''A-1'' ''acme'' then (''OK'', [Some ''3 7''])
                else if crit = search_criterion ''C-3'' '''' then (''OK'', [Some ''9''])
                else if crit = search_criterion ''D-4'' '''' then (''OK'', [Some ''4''])
                else (''OK'', [Some ''''])),
      imap_fetch =
        (\<lambda>i. if i = ''7'' then (''OK'', [PairItem ''7 (RFC822 {120}'' ''raw-7'', BytesItem '')''])
             else if i = ''9'' then (''OK'', [PairItem ''9 (RFC822 {80}'' ''raw-9'', BytesItem '')''])
             else (''NO'', [NoItem]))\<rparr>"

definition row_A1 :: row where
  "row_A1 = [''order number'' \<mapsto> ''A-1'', ''site'' \<mapsto> ''acme'']"

definition row_B2 :: row where
  "row_B2 = [''order_number'' \<mapsto> ''B-2'', ''site'' \<mapsto> '''']"

definition row_C3 :: row where
  "row_C3 = [''order number'' \<mapsto> ''C-3'']"

definition row_D4 :: row where
  "row_D4 = [''order number'' \<mapsto> ''D-4'']"

definition row_blank :: row where
  "row_blank = [''order number'' \<mapsto> '''', ''site'' \<mapsto> ''acme'']"

section \<open>Properties\<close>

subsection \<open>Substrings\<close>

lemma str_in_iff_sublist: "str_in h s \<longleftrightarrow> sublist h s"
  by (induction s) (simp_all add: sublist_Cons_right)

lemma sublist_chain: "sublist a b \<Longrightarrow> sublist b c \<Longrightarrow> sublist a c"
  by (rule sublist_order.order.trans)

lemma sublist_in_subject: "sublist h (lower subj) \<Longrightarrow> sublist h (status_text subj body)"
proof -
  assume "sublist h (lower subj)"
  moreover have "sublist (lower subj) (status_text subj body)"
    unfolding status_text_def by (rule sublist_appendI)
  ultimately show ?thesis by (rule sublist_chain)
qed

lemma sublist_in_body: "sublist h (lower body) \<Longrightarrow> sublist h (status_text subj body)"
proof -
  assume "sublist h (lower body)"
  moreover have "sublist (lower body) (status_text subj body)"
    using sublist_appendI [of "lower body" "'' '' @ lower subj @ '' ''" "'' ''"]
    by (simp add: status_text_def)
  ultimately show ?thesis by (rule sublist_chain)
qed

text \<open>A word that does not hold the separator lies on one side of it.\<close>

lemma word_in_joined:
  assumes "sublist w (a @ x # b)" and "x \<notin> set w"
  shows "sublist w a \<or> sublist w b"
proof -
  from assms(1) consider "sublist w a" | "sublist w (x # b)"
    | xs1 xs2 where "w = xs1 @ xs2" "suffix xs1 a" "prefix xs2 (x # b)"
    by (auto simp: sublist_append)
  then show ?thesis
  proof cases
    case 1
    then show ?thesis by simp
  next
    case 2
    then have "prefix w (x # b) \<or> sublist w b" by (simp add: sublist_Cons_right)
    moreover have "prefix w (x # b) \<Longrightarrow> w = []"
      using assms(2) by (cases w) auto
    ultimately show ?thesis by auto
  next
    case 3
    have "xs2 = []" using 3(1,3) assms(2) by (cases xs2) auto
    with 3 show ?thesis by auto
  qed
qed

lemma word_in_status_text:
  assumes "sublist w (status_text subj body)" and "CHR '' '' \<notin> set w" and "w \<noteq> []"
  shows "sublist w (lower subj) \<or> sublist w (lower body)"
proof -
  have "sublist w ([] @ CHR '' '' # (lower subj @ CHR '' '' # (lower body @ CHR '' '' # [])))"
    using assms(1) by (simp add: status_text_def)
  then have "sublist w [] \<or> sublist w (lower subj @ CHR '' '' # (lower body @ CHR '' '' # []))"
    using assms(2) by (rule word_in_joined)
  with assms(3) have "sublist w (lower subj @ CHR '' '' # (lower body @ CHR '' '' # []))"
    by simp
  then have "sublist w (lower subj) \<or> sublist w (lower body @ CHR '' '' # [])"
    using assms(2) by (rule word_in_joined)
  moreover have "sublist w (lower body @ CHR '' '' # []) \<Longrightarrow> sublist w (lower body) \<or> sublist w []"
    using word_in_joined [OF _ assms(2)] by blast
  ultimately show ?thesis using assms(3) by auto
qed

subsection \<open>Status classifier\<close>

lemma delivered_hint_iff:
  "any_in STATUS_HINTS_delivered s \<longleftrightarrow>
     sublist '' delivered '' s \<or> sublist '' has been delivered'' s
     \<or> sublist ''was delivered'' s \<or> sublist ''delivered on'' s"
  by (simp add: any_in_def STATUS_HINTS_delivered_def str_in_iff_sublist)

lemma shipped_hint_iff:
  "any_in STATUS_HINTS_shipped s \<longleftrightarrow>
     sublist '' shipped '' s \<or> sublist '' on the way '' s
     \<or> sublist '' out for delivery '' s \<or> sublist '' has shipped '' s"
  by (simp add: any_in_def STATUS_HINTS_shipped_def str_in_iff_sublist)

lemma detect_status_cases:
  "detect_status subj body has_tracking =
     (if any_in STATUS_HINTS_delivered (status_text subj body) then ''Delivered''
      else if has_tracking \<or> any_in STATUS_HINTS_shipped (status_text subj body) then ''Shipped''
      else ''Pending'')"
  by (simp add: detect_status_def Let_def)

lemma delivered_word_in_hints:
  assumes "any_in STATUS_HINTS_delivered s"
  shows "sublist ''delivered'' s"
proof -
  have a: "sublist ''delivered'' '' delivered ''" by code_simp
  have b: "sublist ''delivered'' '' has been delivered''" by code_simp
  have c: "sublist ''delivered'' ''was delivered''" by code_simp
  have d: "sublist ''delivered'' ''delivered on''" by code_simp
  from assms a b c d show ?thesis
    unfolding delivered_hint_iff by (blast intro: sublist_chain)
qed

lemma no_delivered_phrase_no_hint:
  assumes "\<not> spec_contains spec_delivered_phrases subj body"
  shows "\<not> any_in STATUS_HINTS_delivered (status_text subj body)"
proof
  assume "any_in STATUS_HINTS_delivered (status_text subj body)"
  then have "sublist ''delivered'' (status_text subj body)" by (rule delivered_word_in_hints)
  then have "sublist ''delivered'' (lower subj) \<or> sublist ''delivered'' (lower body)"
    by (rule word_in_status_text) simp_all
  with assms show False
    by (simp add: spec_contains_def spec_delivered_phrases_def str_in_iff_sublist)
qed

text \<open>
  C1, as the specification words it: the classifier is the decision list with the bare
  phrases, looked for in the subject or in the body. This fails: a body that ends a
  sentence with \<open>shipped!\<close> holds the phrases \<open>shipped\<close> and \<open>has shipped\<close>, so the list of
  the specification answers Shipped, and the classifier answers Pending.
\<close>

theorem detect_status_spec_list_counterexample:
  "spec_status '''' ''Your order has shipped!'' False = ''Shipped''
   \<and> detect_status '''' ''Your order has shipped!'' False = ''Pending''"
  by code_simp

text \<open>
  C1, amended: the classifier is the four-step strict-priority list over the single text
  \<open>" " + subject.lower() + " " + body.lower() + " "\<close> and the literals of the source, most of
  which carry blanks: Delivered if the text holds \<open>" delivered "\<close>, \<open>" has been delivered"\<close>,
  \<open>"was delivered"\<close> or \<open>"delivered on"\<close>; else Shipped if a tracking number was extracted or
  the text holds \<open>" shipped "\<close>, \<open>" on the way "\<close>, \<open>" out for delivery "\<close> or
  \<open>" has shipped "\<close>; else Pending, with or without a pending phrase. An input whose subject
  or body holds \<open>delivered on 5/1\<close> as well as \<open>out for delivery\<close> is Delivered, and an
  input with a tracking number and no delivered phrase of the specification is Shipped.
\<close>

theorem detect_status_decision_list:
  "detect_status subj body has_tracking =
     (if sublist '' delivered '' (status_text subj body)
         \<or> sublist '' has been delivered'' (status_text subj body)
         \<or> sublist ''was delivered'' (status_text subj body)
         \<or> sublist ''delivered on'' (status_text subj body)
      then ''Delivered''
      else if has_tracking
         \<or> sublist '' shipped '' (status_text subj body)
         \<or> sublist '' on the way '' (status_text subj body)
         \<or> sublist '' out for delivery '' (status_text subj body)
         \<or> sublist '' has shipped '' (status_text subj body)
      then ''Shipped''
      else ''Pending'')
   \<and> ((sublist ''delivered on 5/1'' (lower subj) \<or> sublist ''delivered on 5/1'' (lower body))
        \<and> (sublist ''out for delivery'' (lower subj) \<or> sublist ''out for delivery'' (lower body))
        \<longrightarrow> detect_status subj body has_tracking = ''Delivered'')
   \<and> (\<not> spec_contains spec_delivered_phrases subj body
        \<longrightarrow> detect_status subj body True = ''Shipped'')"
proof (intro conjI impI)
  show "detect_status subj body has_tracking =
     (if sublist '' delivered '' (status_text subj body)
         \<or> sublist '' has been delivered'' (status_text subj body)
         \<or> sublist ''was delivered'' (status_text subj body)
         \<or> sublist ''delivered on'' (status_text subj body)
      then ''Delivered''
      else if has_tracking
         \<or> sublist '' shipped '' (status_text subj body)
         \<or> sublist '' on the way '' (status_text subj body)
         \<or> sublist '' out for delivery '' (status_text subj body)
         \<or> sublist '' has shipped '' (status_text subj body)
      then ''Shipped''
      else ''Pending'')"
    unfolding detect_status_cases delivered_hint_iff shipped_hint_iff by (rule refl)
next
  assume h: "(sublist ''delivered on 5/1'' (lower subj) \<or> sublist ''delivered on 5/1'' (lower body))
        \<and> (sublist ''out for delivery'' (lower subj) \<or> sublist ''out for delivery'' (lower body))"
  have p: "sublist ''delivered on'' ''delivered on 5/1''" by code_simp
  from h have "sublist ''delivered on 5/1'' (status_text subj body)"
    by (blast intro: sublist_in_subject sublist_in_body)
  with p have "sublist ''delivered on'' (status_text subj body)" by (rule sublist_chain)
  then show "detect_status subj body has_tracking = ''Delivered''"
    by (simp add: detect_status_cases delivered_hint_iff)
next
  assume "\<not> spec_contains spec_delivered_phrases subj body"
  then have "\<not> any_in STATUS_HINTS_delivered (status_text subj body)"
    by (rule no_delivered_phrase_no_hint)
  then show "detect_status subj body True = ''Shipped''"
    by (simp add: detect_status_cases)
qed

text \<open>
  C1, the amended theorem at two inputs: a body with \<open>delivered on 5/1\<close> after
  \<open>Out for delivery\<close>, and a body with a tracking number and no delivered phrase.
\<close>

theorem detect_status_decision_list_witness:
  "(sublist ''delivered on 5/1'' (lower ''Out for delivery, then delivered on 5/1'')
    \<and> sublist ''out for delivery'' (lower ''Out for delivery, then delivered on 5/1'')
    \<and> detect_status ''Update'' ''Out for delivery, then delivered on 5/1'' False = ''Delivered'')
   \<and> (\<not> spec_contains spec_delivered_phrases ''Update'' ''Label 1Z999AA10123456784 created''
    \<and> detect_status ''Update'' ''Label 1Z999AA10123456784 created'' True = ''Shipped'')"
proof -
  have h1: "sublist ''delivered on 5/1'' (lower ''Out for delivery, then delivered on 5/1'')"
    by code_simp
  have h2: "sublist ''out for delivery'' (lower ''Out for delivery, then delivered on 5/1'')"
    by code_simp
  have h3: "\<not> spec_contains spec_delivered_phrases ''Update'' ''Label 1Z999AA10123456784 created''"
    by code_simp
  from h1 h2 h3
    detect_status_decision_list [of "''Update''" "''Out for delivery, then delivered on 5/1''" False]
    detect_status_decision_list [of "''Update''" "''Label 1Z999AA10123456784 created''" True]
  show ?thesis by blast
qed

lemma padded_subject_in_text: "sublist ('' '' @ lower subj @ '' '') (status_text subj body)"
proof -
  have "status_text subj body = ('' '' @ lower subj @ '' '') @ (lower body @ '' '')"
    by (simp add: status_text_def)
  then show ?thesis by (simp only: sublist_append_rightI)
qed

lemma padded_body_in_text: "sublist ('' '' @ lower body @ '' '') (status_text subj body)"
proof -
  have "status_text subj body = ('' '' @ lower subj) @ ('' '' @ lower body @ '' '')"
    by (simp add: status_text_def)
  then show ?thesis by (simp only: sublist_append_leftI)
qed

lemma led_subject_in_text: "sublist ('' '' @ lower subj) (status_text subj body)"
proof -
  have "status_text subj body = ('' '' @ lower subj) @ ('' '' @ lower body @ '' '')"
    by (simp add: status_text_def)
  then show ?thesis by (simp only: sublist_append_rightI)
qed

lemma led_body_in_text: "sublist ('' '' @ lower body) (status_text subj body)"
proof -
  have "status_text subj body = ('' '' @ lower subj) @ ('' '' @ lower body) @ '' ''"
    by (simp add: status_text_def)
  then show ?thesis by (simp only: sublist_appendI)
qed

text \<open>
  C6, as stated: a subject or body that contains the bare phrase \<open>delivered\<close>, in any case,
  is classified Delivered. This fails on the subject \<open>Package delivered.\<close>: the hint of the
  source is \<open>" delivered "\<close>, with a blank on each side, and the full stop is not a blank.
\<close>

theorem bare_delivered_counterexample:
  "str_in ''delivered'' (lower ''Package delivered.'')
   \<and> detect_status ''Package delivered.'' '''' False = ''Pending''"
  by code_simp

text \<open>
  C6, amended: for every subject and body the classifier returns Delivered if, in lower
  case, the subject or the body contains \<open>was delivered\<close> or \<open>delivered on\<close>, or contains
  \<open>delivered\<close> with a blank or the end of the subject or body on each side, or contains
  \<open>has been delivered\<close> after a blank or at the start of the subject or body. The bare
  word followed by punctuation is outside these cases.
\<close>

theorem delivered_phrase_gives_delivered:
  assumes "sublist ''was delivered'' (lower subj) \<or> sublist ''was delivered'' (lower body)
    \<or> sublist ''delivered on'' (lower subj) \<or> sublist ''delivered on'' (lower body)
    \<or> sublist '' delivered '' ('' '' @ lower subj @ '' '')
    \<or> sublist '' delivered '' ('' '' @ lower body @ '' '')
    \<or> sublist '' has been delivered'' ('' '' @ lower subj)
    \<or> sublist '' has been delivered'' ('' '' @ lower body)"
  shows "detect_status subj body has_tracking = ''Delivered''"
proof -
  from assms have "sublist '' delivered '' (status_text subj body)
      \<or> sublist '' has been delivered'' (status_text subj body)
      \<or> sublist ''was delivered'' (status_text subj body)
      \<or> sublist ''delivered on'' (status_text subj body)"
    using sublist_in_subject [of _ subj body] sublist_in_body [of _ body subj]
      sublist_chain [OF _ padded_subject_in_text [of subj body]]
      sublist_chain [OF _ padded_body_in_text [of body subj]]
      sublist_chain [OF _ led_subject_in_text [of subj body]]
      sublist_chain [OF _ led_body_in_text [of body subj]]
    by blast
  then show ?thesis
    by (simp only: detect_status_cases delivered_hint_iff if_True)
qed

text \<open>
  C6, the amended theorem at the subject \<open>Package Delivered\<close>, where the word ends the
  subject.
\<close>

theorem delivered_phrase_gives_delivered_witness:
  "sublist '' delivered '' ('' '' @ lower ''Package Delivered'' @ '' '')
   \<and> detect_status ''Package Delivered'' ''See your orders'' False = ''Delivered''"
proof -
  have h: "sublist '' delivered '' ('' '' @ lower ''Package Delivered'' @ '' '')"
    by code_simp
  from h delivered_phrase_gives_delivered [of "''Package Delivered''" "''See your orders''" False]
  show ?thesis by blast
qed

text \<open>
  C10: the classifier tests the phrases against one text, the lower-case subject and body
  joined by one blank (and a blank at each end), so a phrase can lie across the join. For
  every subject that ends in \<open>has\<close> after a blank and every body that starts with
  \<open>shipped\<close> and a blank, the text holds \<open>" has shipped "\<close> and the result is not Pending.
  With the subject \<open>Your order has\<close> and the body \<open>shipped today\<close> the result is Shipped,
  and neither of the two, in lower case, holds a shipped hint. With the subject
  \<open>Package is on the\<close> and the body \<open>way to you\<close> the result is Shipped, while each of
  the two classified without the other is Pending, and neither holds a shipped phrase of
  the specification.
\<close>

theorem status_phrase_spans_boundary:
  "sublist '' has shipped '' (status_text (pre @ '' has'') (''shipped '' @ post))
   \<and> detect_status (pre @ '' has'') (''shipped '' @ post) has_tracking \<noteq> ''Pending''
   \<and> detect_status ''Your order has'' ''shipped today'' False = ''Shipped''
   \<and> \<not> any_in STATUS_HINTS_shipped (lower ''Your order has'')
   \<and> \<not> any_in STATUS_HINTS_shipped (lower ''shipped today'')
   \<and> detect_status ''Package is on the'' ''way to you'' False = ''Shipped''
   \<and> detect_status ''Package is on the'' '''' False = ''Pending''
   \<and> detect_status '''' ''way to you'' False = ''Pending''
   \<and> \<not> spec_contains spec_shipped_phrases ''Package is on the'' ''''
   \<and> \<not> spec_contains spec_shipped_phrases '''' ''way to you''"
proof -
  have e: "lower '' has'' = '' has''" "lower ''shipped '' = ''shipped ''"
    by code_simp+
  have "status_text (pre @ '' has'') (''shipped '' @ post)
      = ('' '' @ lower pre) @ '' has shipped '' @ (lower post @ '' '')"
    unfolding status_text_def lower_def map_append e [unfolded lower_def] by simp
  then have s: "sublist '' has shipped '' (status_text (pre @ '' has'') (''shipped '' @ post))"
    by (simp only: sublist_appendI)
  then have n: "detect_status (pre @ '' has'') (''shipped '' @ post) has_tracking \<noteq> ''Pending''"
    by (simp add: detect_status_cases shipped_hint_iff)
  have a: "detect_status ''Your order has'' ''shipped today'' False = ''Shipped''"
    by code_simp
  have b: "\<not> any_in STATUS_HINTS_shipped (lower ''Your order has'')"
    by code_simp
  have c: "\<not> any_in STATUS_HINTS_shipped (lower ''shipped today'')"
    by code_simp
  have d: "detect_status ''Package is on the'' ''way to you'' False = ''Shipped''"
    by code_simp
  have f: "detect_status ''Package is on the'' '''' False = ''Pending''"
    by code_simp
  have g: "detect_status '''' ''way to you'' False = ''Pending''"
    by code_simp
  have h: "\<not> spec_contains spec_shipped_phrases ''Package is on the'' ''''"
    by code_simp
  have i: "\<not> spec_contains spec_shipped_phrases '''' ''way to you''"
    by code_simp
  from s n a b c d f g h i show ?thesis by blast
qed

subsection \<open>Tracking extractor\<close>

lemma rmatch_Rep_done: "rmatch (Rep P 0 (Some 0) # r) prev s = rmatch r prev s"
  by (cases s) (simp_all add: may_take_def)

lemma rmatch_bounds:
  "rmatch r prev s = Some m \<Longrightarrow> min_len r \<le> length m \<and> prefix m s"
proof (induction r prev s arbitrary: m rule: rmatch.induct)
  case (1 prev s)
  then show ?case by simp
next
  case (2 r prev s)
  then show ?case by (simp split: if_splits)
next
  case (3 P r prev)
  then show ?case by simp
next
  case (4 P r prev c cs)
  then show ?case by (auto split: if_splits)
next
  case (5 P lo hi r prev)
  then show ?case by (auto split: if_splits)
next
  case (6 P lo hi r prev c cs)
  show ?case
  proof (cases "P c \<and> may_take hi")
    case True
    show ?thesis
    proof (cases "rmatch (Rep P (lo - 1) (dec_hi hi) # r) (Some c) cs")
      case None
      with True "6.prems" have "lo = 0" and "rmatch r prev (c # cs) = Some m"
        by (simp_all split: if_splits)
      with "6.IH"(2) [OF True None] show ?thesis by simp
    next
      case (Some m')
      with True "6.prems" have m: "m = c # m'" by simp
      from "6.IH"(1) [OF True Some] have "lo - 1 + min_len r \<le> length m'" "prefix m' cs"
        by simp_all
      with m show ?thesis by simp
    qed
  next
    case False
    with "6.prems" have "lo = 0" and "rmatch r prev (c # cs) = Some m"
      by (simp_all split: if_splits)
    with "6.IH"(3) [OF False] show ?thesis by simp
  qed
qed

lemma rsearch_bounds:
  "rsearch rx prev s = Some m \<Longrightarrow> min_len rx \<le> length m \<and> sublist m s"
proof (induction s arbitrary: prev)
  case Nil
  then show ?case using rmatch_bounds [of rx prev "[]" m] by auto
next
  case (Cons c cs)
  show ?case
  proof (cases "rmatch rx prev (c # cs)")
    case None
    with Cons.prems have "rsearch rx (Some c) cs = Some m" by simp
    from Cons.IH [OF this] show ?thesis by (simp add: sublist_Cons_right)
  next
    case (Some m')
    with Cons.prems have "m' = m" by simp
    with Some rmatch_bounds [of rx prev "c # cs" m] show ?thesis by auto
  qed
qed

lemma rsearch_short: "length s < min_len rx \<Longrightarrow> rsearch rx prev s = None"
proof (rule ccontr)
  assume l: "length s < min_len rx" and "rsearch rx prev s \<noteq> None"
  then obtain m where "rsearch rx prev s = Some m" by auto
  from rsearch_bounds [OF this] sublist_length_le [of m s] l show False by auto
qed

lemma last_char_Cons: "last_char (Some c) cs = last_char prev (c # cs)"
  by (simp add: last_char_def)

lemma rsearch_found:
  "rmatch rx (last_char prev pre) s = Some m \<Longrightarrow> \<exists>m'. rsearch rx prev (pre @ s) = Some m'"
proof (induction pre arbitrary: prev)
  case Nil
  then show ?case by (cases s) (simp_all add: last_char_def)
next
  case (Cons a as)
  have "last_char (Some a) as = last_char prev (a # as)" by (rule last_char_Cons)
  with Cons.prems have "rmatch rx (last_char (Some a) as) s = Some m" by simp
  from Cons.IH [OF this] show ?case by (cases "rmatch rx prev (a # as @ s)") auto
qed

lemma min_len_patterns:
  "min_len RE_UPS = 18" "min_len RE_USPS = 22" "min_len RE_FEDEX = 12" "min_len RE_DHL = 10"
  "min_len RE_TBA = 4"
  by (simp_all add: RE_UPS_def RE_USPS_def RE_FEDEX_def RE_DHL_def RE_TBA_def)

lemma digit_is_word: "is_digit c \<Longrightarrow> is_word c"
  by (simp add: is_word_def is_alnum_ci_def)

lemma digit_not_Z: "is_digit c \<Longrightarrow> \<not> ci CHR ''Z'' c"
  by (auto simp add: ci_def lower_char_def is_digit_def is_upper_az_def code_def)


lemma rep_all:
  "list_all P s \<Longrightarrow> lo \<le> length s \<Longrightarrow> (\<forall>h. hi = Some h \<longrightarrow> length s \<le> h)
    \<Longrightarrow> word_before (last_char prev s)
    \<Longrightarrow> rmatch [Rep P lo hi, Bnd] prev s = Some s"
proof (induction s arbitrary: lo hi prev)
  case Nil
  then show ?case by (simp add: last_char_def at_boundary_def word_after_def)
next
  case (Cons c cs)
  have take: "P c \<and> may_take hi"
    using Cons.prems(1,3) by (auto simp add: may_take_def)
  have "rmatch [Rep P (lo - 1) (dec_hi hi), Bnd] (Some c) cs = Some cs"
  proof (rule Cons.IH)
    show "list_all P cs" using Cons.prems(1) by simp
    show "lo - 1 \<le> length cs" using Cons.prems(2) by simp
    show "\<forall>h. dec_hi hi = Some h \<longrightarrow> length cs \<le> h"
      using Cons.prems(3) by (auto simp add: dec_hi_def)
    show "word_before (last_char (Some c) cs)"
      using Cons.prems(4) by (simp only: last_char_Cons [of c cs prev])
  qed
  with take show ?case by simp
qed

lemma ups_no_digits: "list_all is_digit s \<Longrightarrow> rsearch RE_UPS prev s = None"
proof (induction s arbitrary: prev)
  case Nil
  then show ?case by (simp add: RE_UPS_def)
next
  case (Cons c cs)
  have "rmatch RE_UPS prev (c # cs) = None"
  proof (cases cs)
    case Nil
    then show ?thesis by (simp add: RE_UPS_def)
  next
    case (Cons d ds)
    with Cons.prems have "is_digit d" by simp
    then have "\<not> ci CHR ''Z'' d" by (rule digit_not_Z)
    with Cons show ?thesis by (simp add: RE_UPS_def)
  qed
  moreover have "rsearch RE_UPS (Some c) cs = None"
    using Cons.IH Cons.prems by simp
  ultimately show ?case by simp
qed

lemma digits_last_word:
  assumes "list_all is_digit s" and "s \<noteq> []"
  shows "word_before (last_char prev s)"
proof -
  from assms have "is_digit (last s)" by (simp add: list_all_iff)
  then show ?thesis using assms(2) by (simp add: last_char_def word_before_def digit_is_word)
qed

lemma usps_example:
  assumes "list_all is_digit ds" and "length ds = 21"
  shows "detect_tracking (CHR ''9'' # ds) = (''USPS'', CHR ''9'' # ds)"
proof -
  have nine: "is_digit CHR ''9''" by code_simp
  have ne: "ds \<noteq> []" using assms(2) by auto
  have "list_all is_digit (CHR ''9'' # ds)" using assms(1) nine by simp
  then have ups: "re_search RE_UPS (CHR ''9'' # ds) = None"
    unfolding re_search_def by (rule ups_no_digits)
  have "rmatch [Rep is_digit 21 (Some 22), Bnd] (Some CHR ''9'') ds = Some ds"
    using assms digits_last_word [OF assms(1) ne] by (intro rep_all) simp_all
  moreover have "at_boundary None (CHR ''9'' # ds)"
    using nine by (simp add: at_boundary_def word_before_def word_after_def digit_is_word)
  ultimately have "re_search RE_USPS (CHR ''9'' # ds) = Some (CHR ''9'' # ds)"
    by (simp add: re_search_def RE_USPS_def)
  with ups show ?thesis by (simp add: detect_tracking_def carrier_patterns_def)
qed

lemma dhl_example:
  assumes "list_all is_digit ds" and "length ds = 10"
  shows "detect_tracking ds = (''DHL'', ds)"
proof -
  have ne: "ds \<noteq> []" using assms(2) by auto
  have ups: "re_search RE_UPS ds = None"
    unfolding re_search_def using assms(1) by (rule ups_no_digits)
  have usps: "re_search RE_USPS ds = None"
    unfolding re_search_def using assms(2) by (intro rsearch_short) (simp add: min_len_patterns)
  have fedex: "re_search RE_FEDEX ds = None"
    unfolding re_search_def using assms(2) by (intro rsearch_short) (simp add: min_len_patterns)
  have "rmatch [Rep is_digit 10 (Some 10), Bnd] None ds = Some ds"
    using assms digits_last_word [OF assms(1) ne] by (intro rep_all) simp_all
  moreover have "at_boundary None ds"
    using assms(1) ne
    by (cases ds) (simp_all add: at_boundary_def word_before_def word_after_def digit_is_word)
  ultimately have "rmatch RE_DHL None ds = Some ds"
    by (simp add: RE_DHL_def)
  then have "re_search RE_DHL ds = Some ds"
    unfolding re_search_def by (cases ds) simp_all
  with ups usps fedex show ?thesis by (simp add: detect_tracking_def carrier_patterns_def)
qed

lemma rep_exact:
  "list_all P s \<Longrightarrow> length s = n \<Longrightarrow> at_boundary (last_char prev s) post
    \<Longrightarrow> rmatch [Rep P n (Some n), Bnd] prev (s @ post) = Some s"
proof (induction s arbitrary: n prev)
  case Nil
  then show ?case by (simp add: rmatch_Rep_done last_char_def)
next
  case (Cons c cs)
  from Cons.prems(2) obtain k where n: "n = Suc k" and k: "length cs = k" by auto
  have "at_boundary (last_char (Some c) cs) post"
    using Cons.prems(3) by (simp only: last_char_Cons [of c cs prev])
  with Cons.IH [of k "Some c"] Cons.prems(1) k
  have "rmatch [Rep P k (Some k), Bnd] (Some c) (cs @ post) = Some cs" by simp
  with Cons.prems(1) n show ?case by (simp add: may_take_def dec_hi_def)
qed

lemma ups_shape:
  "at_boundary prev (CHR ''1'' # CHR ''Z'' # t)
    \<Longrightarrow> rmatch [Rep is_alnum_ci 16 (Some 16), Bnd] (Some CHR ''Z'') t = Some m
    \<Longrightarrow> rmatch RE_UPS prev (CHR ''1'' # CHR ''Z'' # t) = Some (CHR ''1'' # CHR ''Z'' # m)"
proof -
  have z: "ci CHR ''Z'' CHR ''Z''" by code_simp
  show "at_boundary prev (CHR ''1'' # CHR ''Z'' # t)
    \<Longrightarrow> rmatch [Rep is_alnum_ci 16 (Some 16), Bnd] (Some CHR ''Z'') t = Some m
    \<Longrightarrow> rmatch RE_UPS prev (CHR ''1'' # CHR ''Z'' # t) = Some (CHR ''1'' # CHR ''Z'' # m)"
    by (simp add: RE_UPS_def z)
qed

lemma ups_token_match:
  assumes "\<not> word_before prev" and "\<not> word_after post"
  shows "rmatch RE_UPS prev (''1Z999AA10123456784'' @ post) = Some ''1Z999AA10123456784''"
proof -
  have one: "is_word CHR ''1''" by code_simp
  have b: "at_boundary prev (CHR ''1'' # CHR ''Z'' # (''999AA10123456784'' @ post))"
    using assms(1) one by (simp add: at_boundary_def word_after_def)
  have l: "last_char (Some CHR ''Z'') ''999AA10123456784'' = Some CHR ''4''"
    by (simp add: last_char_def)
  have four: "word_before (Some CHR ''4'')" by code_simp
  have e: "at_boundary (last_char (Some CHR ''Z'') ''999AA10123456784'') post"
    unfolding l using assms(2) four by (simp add: at_boundary_def)
  have a: "list_all is_alnum_ci ''999AA10123456784''" by code_simp
  have n: "length ''999AA10123456784'' = 16" by simp
  have "rmatch [Rep is_alnum_ci 16 (Some 16), Bnd] (Some CHR ''Z'') (''999AA10123456784'' @ post)
      = Some ''999AA10123456784''"
    using a n e by (rule rep_exact)
  from ups_shape [OF b this] show ?thesis by simp
qed

lemma ups_example:
  assumes "pre = [] \<or> \<not> is_word (last pre)" and "post = [] \<or> \<not> is_word (hd post)"
  shows "fst (detect_tracking (pre @ ''1Z999AA10123456784'' @ post)) = ''UPS''"
proof -
  have p: "\<not> word_before (last_char None pre)"
    using assms(1) by (auto simp add: last_char_def word_before_def)
  have q: "\<not> word_after post"
    using assms(2) by (cases post) (auto simp add: word_after_def)
  from ups_token_match [OF p q] rsearch_found
  obtain m where "rsearch RE_UPS None (pre @ ''1Z999AA10123456784'' @ post) = Some m"
    by blast
  then show ?thesis by (simp add: detect_tracking_def carrier_patterns_def re_search_def)
qed

lemma rep_then_boundary:
  "list_all P s \<Longrightarrow> lo \<le> length s \<Longrightarrow> (\<forall>h. hi = Some h \<longrightarrow> length s \<le> h)
    \<Longrightarrow> at_boundary (last_char prev s) post \<Longrightarrow> post = [] \<or> \<not> P (hd post)
    \<Longrightarrow> rmatch [Rep P lo hi, Bnd] prev (s @ post) = Some s"
proof (induction s arbitrary: lo hi prev)
  case Nil
  then show ?case by (cases post) (simp_all add: last_char_def)
next
  case (Cons c cs)
  have take: "P c \<and> may_take hi"
    using Cons.prems(1,3) by (auto simp add: may_take_def)
  have "rmatch [Rep P (lo - 1) (dec_hi hi), Bnd] (Some c) (cs @ post) = Some cs"
  proof (rule Cons.IH)
    show "list_all P cs" using Cons.prems(1) by simp
    show "lo - 1 \<le> length cs" using Cons.prems(2) by simp
    show "\<forall>h. dec_hi hi = Some h \<longrightarrow> length cs \<le> h"
      using Cons.prems(3) by (auto simp add: dec_hi_def)
    show "at_boundary (last_char (Some c) cs) post"
      using Cons.prems(4) by (simp only: last_char_Cons [of c cs prev])
    show "post = [] \<or> \<not> P (hd post)" by (rule Cons.prems(5))
  qed
  with take show ?case by simp
qed

lemma alnum_is_word: "is_alnum_ci c \<Longrightarrow> is_word c"
  by (simp add: is_word_def)

lemma not_word_after: "\<not> word_after post \<Longrightarrow> post = [] \<or> \<not> is_word (hd post)"
  by (cases post) (simp_all add: word_after_def)

lemma digits_then_boundary:
  assumes "list_all is_digit s" and "s \<noteq> []" and "\<not> word_after post"
  shows "at_boundary (last_char prev s) post"
  using digits_last_word [OF assms(1,2), of prev] assms(3) by (simp add: at_boundary_def)

lemma usps_token_match:
  assumes "list_all is_digit ds" and "length ds = 21"
    and "\<not> word_before prev" and "\<not> word_after post"
  shows "rmatch RE_USPS prev (CHR ''9'' # ds @ post) = Some (CHR ''9'' # ds)"
proof -
  have ne: "ds \<noteq> []" using assms(2) by auto
  have nine: "is_word CHR ''9''" by code_simp
  have b: "at_boundary prev (CHR ''9'' # ds @ post)"
    using assms(3) nine by (simp add: at_boundary_def word_after_def)
  have p: "post = [] \<or> \<not> is_digit (hd post)"
    using not_word_after [OF assms(4)] digit_is_word by blast
  have "rmatch [Rep is_digit 21 (Some 22), Bnd] (Some CHR ''9'') (ds @ post) = Some ds"
    using assms(1) _ _ digits_then_boundary [OF assms(1) ne assms(4)] p
    by (rule rep_then_boundary) (simp_all add: assms(2))
  with b show ?thesis by (simp add: RE_USPS_def)
qed

lemma dhl_token_match:
  assumes "list_all is_digit ts" and "length ts = 10"
    and "\<not> word_before prev" and "\<not> word_after post"
  shows "rmatch RE_DHL prev (ts @ post) = Some ts"
proof -
  have ne: "ts \<noteq> []" using assms(2) by auto
  then obtain c cs where ts: "ts = c # cs" by (cases ts) auto
  with assms(1) have "is_word c" by (simp add: digit_is_word)
  with ts assms(3) have b: "at_boundary prev (ts @ post)"
    by (simp add: at_boundary_def word_after_def)
  have p: "post = [] \<or> \<not> is_digit (hd post)"
    using not_word_after [OF assms(4)] digit_is_word by blast
  have "rmatch [Rep is_digit 10 (Some 10), Bnd] prev (ts @ post) = Some ts"
    using assms(1) _ _ digits_then_boundary [OF assms(1) ne assms(4)] p
    by (rule rep_then_boundary) (simp_all add: assms(2))
  with b show ?thesis by (simp add: RE_DHL_def)
qed

lemma tba_shape:
  "at_boundary prev (CHR ''T'' # CHR ''B'' # CHR ''A'' # t)
    \<Longrightarrow> rmatch [Rep is_alnum_ci 1 None, Bnd] (Some CHR ''A'') t = Some m
    \<Longrightarrow> rmatch RE_TBA prev (CHR ''T'' # CHR ''B'' # CHR ''A'' # t)
        = Some (CHR ''T'' # CHR ''B'' # CHR ''A'' # m)"
proof -
  have t: "ci CHR ''T'' CHR ''T''" and b: "ci CHR ''B'' CHR ''B''" and a: "ci CHR ''A'' CHR ''A''"
    by code_simp+
  show "at_boundary prev (CHR ''T'' # CHR ''B'' # CHR ''A'' # t)
    \<Longrightarrow> rmatch [Rep is_alnum_ci 1 None, Bnd] (Some CHR ''A'') t = Some m
    \<Longrightarrow> rmatch RE_TBA prev (CHR ''T'' # CHR ''B'' # CHR ''A'' # t)
        = Some (CHR ''T'' # CHR ''B'' # CHR ''A'' # m)"
    by (simp add: RE_TBA_def t b a)
qed

lemma tba_token_match:
  assumes "\<not> word_before prev" and "\<not> word_after post"
  shows "rmatch RE_TBA prev (''TBA123456789012'' @ post) = Some ''TBA123456789012''"
proof -
  have w: "is_word CHR ''T''" by code_simp
  have b: "at_boundary prev (CHR ''T'' # CHR ''B'' # CHR ''A'' # (''123456789012'' @ post))"
    using assms(1) w by (simp add: at_boundary_def word_after_def)
  have d: "list_all is_digit ''123456789012''" by code_simp
  have al: "list_all is_alnum_ci ''123456789012''" by code_simp
  have e: "at_boundary (last_char (Some CHR ''A'') ''123456789012'') post"
    using d _ assms(2) by (rule digits_then_boundary) simp
  have p: "post = [] \<or> \<not> is_alnum_ci (hd post)"
    using not_word_after [OF assms(2)] alnum_is_word by blast
  have "rmatch [Rep is_alnum_ci 1 None, Bnd] (Some CHR ''A'') (''123456789012'' @ post)
      = Some ''123456789012''"
    using al _ _ e p by (rule rep_then_boundary) simp_all
  from tba_shape [OF b this] show ?thesis by simp
qed

lemma word_context:
  assumes "pre = [] \<or> \<not> is_word (last pre)" and "post = [] \<or> \<not> is_word (hd post)"
  shows "\<not> word_before (last_char None pre) \<and> \<not> word_after post"
proof
  show "\<not> word_before (last_char None pre)"
    using assms(1) by (auto simp add: last_char_def word_before_def)
  show "\<not> word_after post"
    using assms(2) by (cases post) (auto simp add: word_after_def)
qed

lemma re_search_found:
  "rmatch rx (last_char None pre) s = Some m \<Longrightarrow> \<exists>m'. re_search rx (pre @ s) = Some m'"
  unfolding re_search_def by (rule rsearch_found)

lemma usps_in_context:
  assumes "list_all is_digit ds" and "length ds = 21"
    and "pre = [] \<or> \<not> is_word (last pre)" and "post = [] \<or> \<not> is_word (hd post)"
    and "re_search RE_UPS (pre @ CHR ''9'' # ds @ post) = None"
  shows "fst (detect_tracking (pre @ CHR ''9'' # ds @ post)) = ''USPS''"
proof -
  from word_context [OF assms(3,4)]
  have "rmatch RE_USPS (last_char None pre) (CHR ''9'' # ds @ post) = Some (CHR ''9'' # ds)"
    by (intro usps_token_match assms(1,2)) simp_all
  from re_search_found [OF this] obtain m
    where "re_search RE_USPS (pre @ CHR ''9'' # ds @ post) = Some m" by blast
  with assms(5) show ?thesis by (simp add: detect_tracking_def carrier_patterns_def)
qed

lemma dhl_in_context:
  assumes "list_all is_digit ts" and "length ts = 10"
    and "pre = [] \<or> \<not> is_word (last pre)" and "post = [] \<or> \<not> is_word (hd post)"
    and "re_search RE_UPS (pre @ ts @ post) = None"
    and "re_search RE_USPS (pre @ ts @ post) = None"
    and "re_search RE_FEDEX (pre @ ts @ post) = None"
  shows "fst (detect_tracking (pre @ ts @ post)) = ''DHL''"
proof -
  from word_context [OF assms(3,4)]
  have "rmatch RE_DHL (last_char None pre) (ts @ post) = Some ts"
    by (intro dhl_token_match assms(1,2)) simp_all
  from re_search_found [OF this] obtain m
    where "re_search RE_DHL (pre @ ts @ post) = Some m" by blast
  with assms(5,6,7) show ?thesis by (simp add: detect_tracking_def carrier_patterns_def)
qed

lemma tba_in_context:
  assumes "pre = [] \<or> \<not> is_word (last pre)" and "post = [] \<or> \<not> is_word (hd post)"
    and "re_search RE_UPS (pre @ ''TBA123456789012'' @ post) = None"
    and "re_search RE_USPS (pre @ ''TBA123456789012'' @ post) = None"
    and "re_search RE_FEDEX (pre @ ''TBA123456789012'' @ post) = None"
    and "re_search RE_DHL (pre @ ''TBA123456789012'' @ post) = None"
  shows "fst (detect_tracking (pre @ ''TBA123456789012'' @ post)) = ''Amazon Logistics''"
proof -
  from word_context [OF assms(1,2)]
  have "rmatch RE_TBA (last_char None pre) (''TBA123456789012'' @ post)
      = Some ''TBA123456789012''"
    by (intro tba_token_match) simp_all
  from re_search_found [OF this] obtain m
    where "re_search RE_TBA (pre @ ''TBA123456789012'' @ post) = Some m" by blast
  with assms(3,4,5,6) show ?thesis by (simp add: detect_tracking_def carrier_patterns_def)
qed

text \<open>
  C3, as stated, ends with literal examples about a body containing a number. Each
  pattern of the source starts and ends with the word boundary \<open>\b\<close>, so a number that
  touches a letter, a digit or an underscore is not found: each of the four bodies below
  contains the number of the example, and the extractor returns the pair of two empty
  strings.
\<close>

theorem tracking_number_inside_word_counterexample:
  "sublist ''1Z999AA10123456784'' ''X1Z999AA10123456784''
   \<and> detect_tracking ''X1Z999AA10123456784'' = ('''', '''')
   \<and> sublist ''9400100000000000000000'' ''x9400100000000000000000''
   \<and> detect_tracking ''x9400100000000000000000'' = ('''', '''')
   \<and> sublist ''1234567890'' ''abc1234567890''
   \<and> detect_tracking ''abc1234567890'' = ('''', '''')
   \<and> sublist ''TBA123456789012'' ''xTBA123456789012''
   \<and> detect_tracking ''xTBA123456789012'' = ('''', '''')"
proof -
  have a: "sublist ''1Z999AA10123456784'' ''X1Z999AA10123456784''" by code_simp
  have b: "detect_tracking ''X1Z999AA10123456784'' = ('''', '''')" by code_simp
  have c: "sublist ''9400100000000000000000'' ''x9400100000000000000000''" by code_simp
  have d: "detect_tracking ''x9400100000000000000000'' = ('''', '''')" by code_simp
  have e: "sublist ''1234567890'' ''abc1234567890''" by code_simp
  have f: "detect_tracking ''abc1234567890'' = ('''', '''')" by code_simp
  have g: "sublist ''TBA123456789012'' ''xTBA123456789012''" by code_simp
  have h: "detect_tracking ''xTBA123456789012'' = ('''', '''')" by code_simp
  from a b c d e f g h show ?thesis by (intro conjI)
qed

text \<open>
  C3, amended in its examples only: the extractor tries the pairs in the fixed order UPS,
  USPS, FedEx, DHL, Amazon Logistics. A pattern that matches somewhere in the body decides
  the result whatever patterns follow it in the list, a pattern that does not match
  passes the body on to the rest, and when none matches the result is the pair of two
  empty strings. The literal examples hold for a number that stands in the body as a
  whole word, with no letter, digit or underscore directly before or after it:
  \<open>1Z999AA10123456784\<close> as a word of any body gives UPS; a string of 22 digits that
  starts with 9, as a word of a body without a UPS match, gives USPS; a string of 10
  digits, as a word of a body without a UPS, USPS or FedEx match, gives DHL;
  \<open>TBA123456789012\<close>, as a word of a body without a UPS, USPS, FedEx or DHL match, gives
  Amazon Logistics. In particular each of these numbers, as the whole body, gives its
  carrier and itself as the tracking number.
\<close>

theorem detect_tracking_first_match:
  "map fst carrier_patterns = [''UPS'', ''USPS'', ''FedEx'', ''DHL'', ''Amazon Logistics'']
   \<and> (re_search rx body = Some m \<longrightarrow> detect_loop ((name, rx) # rest) body = (name, m))
   \<and> (re_search rx body = None
        \<longrightarrow> detect_loop ((name, rx) # rest) body = detect_loop rest body)
   \<and> (re_search RE_UPS body = Some m \<longrightarrow> detect_tracking body = (''UPS'', m))
   \<and> (re_search RE_UPS body = None \<and> re_search RE_USPS body = Some m
        \<longrightarrow> detect_tracking body = (''USPS'', m))
   \<and> (re_search RE_UPS body = None \<and> re_search RE_USPS body = None
        \<and> re_search RE_FEDEX body = Some m
        \<longrightarrow> detect_tracking body = (''FedEx'', m))
   \<and> (re_search RE_UPS body = None \<and> re_search RE_USPS body = None
        \<and> re_search RE_FEDEX body = None \<and> re_search RE_DHL body = Some m
        \<longrightarrow> detect_tracking body = (''DHL'', m))
   \<and> (re_search RE_UPS body = None \<and> re_search RE_USPS body = None
        \<and> re_search RE_FEDEX body = None \<and> re_search RE_DHL body = None
        \<and> re_search RE_TBA body = Some m
        \<longrightarrow> detect_tracking body = (''Amazon Logistics'', m))
   \<and> (re_search RE_UPS body = None \<and> re_search RE_USPS body = None
        \<and> re_search RE_FEDEX body = None \<and> re_search RE_DHL body = None
        \<and> re_search RE_TBA body = None
        \<longrightarrow> detect_tracking body = ('''', ''''))
   \<and> ((pre = [] \<or> \<not> is_word (last pre)) \<and> (post = [] \<or> \<not> is_word (hd post))
        \<longrightarrow> fst (detect_tracking (pre @ ''1Z999AA10123456784'' @ post)) = ''UPS'')
   \<and> detect_tracking ''1Z999AA10123456784'' = (''UPS'', ''1Z999AA10123456784'')
   \<and> (list_all is_digit ds \<and> length ds = 21
        \<longrightarrow> detect_tracking (CHR ''9'' # ds) = (''USPS'', CHR ''9'' # ds))
   \<and> (list_all is_digit ts \<and> length ts = 10 \<longrightarrow> detect_tracking ts = (''DHL'', ts))
   \<and> detect_tracking ''TBA123456789012'' = (''Amazon Logistics'', ''TBA123456789012'')
   \<and> (list_all is_digit ds \<and> length ds = 21
        \<and> (pre = [] \<or> \<not> is_word (last pre)) \<and> (post = [] \<or> \<not> is_word (hd post))
        \<and> re_search RE_UPS (pre @ CHR ''9'' # ds @ post) = None
        \<longrightarrow> fst (detect_tracking (pre @ CHR ''9'' # ds @ post)) = ''USPS'')
   \<and> (list_all is_digit ts \<and> length ts = 10
        \<and> (pre = [] \<or> \<not> is_word (last pre)) \<and> (post = [] \<or> \<not> is_word (hd post))
        \<and> re_search RE_UPS (pre @ ts @ post) = None
        \<and> re_search RE_USPS (pre @ ts @ post) = None
        \<and> re_search RE_FEDEX (pre @ ts @ post) = None
        \<longrightarrow> fst (detect_tracking (pre @ ts @ post)) = ''DHL'')
   \<and> ((pre = [] \<or> \<not> is_word (last pre)) \<and> (post = [] \<or> \<not> is_word (hd post))
        \<and> re_search RE_UPS (pre @ ''TBA123456789012'' @ post) = None
        \<and> re_search RE_USPS (pre @ ''TBA123456789012'' @ post) = None
        \<and> re_search RE_FEDEX (pre @ ''TBA123456789012'' @ post) = None
        \<and> re_search RE_DHL (pre @ ''TBA123456789012'' @ post) = None
        \<longrightarrow> fst (detect_tracking (pre @ ''TBA123456789012'' @ post)) = ''Amazon Logistics'')"
proof -
  have names: "map fst carrier_patterns = [''UPS'', ''USPS'', ''FedEx'', ''DHL'', ''Amazon Logistics'']"
    by (simp add: carrier_patterns_def)
  have hit: "re_search rx body = Some m \<longrightarrow> detect_loop ((name, rx) # rest) body = (name, m)"
    by simp
  have miss: "re_search rx body = None
      \<longrightarrow> detect_loop ((name, rx) # rest) body = detect_loop rest body"
    by simp
  have p1: "re_search RE_UPS body = Some m \<longrightarrow> detect_tracking body = (''UPS'', m)"
    by (simp add: detect_tracking_def carrier_patterns_def)
  have p2: "re_search RE_UPS body = None \<and> re_search RE_USPS body = Some m
      \<longrightarrow> detect_tracking body = (''USPS'', m)"
    by (simp add: detect_tracking_def carrier_patterns_def)
  have p3: "re_search RE_UPS body = None \<and> re_search RE_USPS body = None
      \<and> re_search RE_FEDEX body = Some m
      \<longrightarrow> detect_tracking body = (''FedEx'', m)"
    by (simp add: detect_tracking_def carrier_patterns_def)
  have p4: "re_search RE_UPS body = None \<and> re_search RE_USPS body = None
      \<and> re_search RE_FEDEX body = None \<and> re_search RE_DHL body = Some m
      \<longrightarrow> detect_tracking body = (''DHL'', m)"
    by (simp add: detect_tracking_def carrier_patterns_def)
  have p5: "re_search RE_UPS body = None \<and> re_search RE_USPS body = None
      \<and> re_search RE_FEDEX body = None \<and> re_search RE_DHL body = None
      \<and> re_search RE_TBA body = Some m
      \<longrightarrow> detect_tracking body = (''Amazon Logistics'', m)"
    by (simp add: detect_tracking_def carrier_patterns_def)
  have p6: "re_search RE_UPS body = None \<and> re_search RE_USPS body = None
      \<and> re_search RE_FEDEX body = None \<and> re_search RE_DHL body = None
      \<and> re_search RE_TBA body = None
      \<longrightarrow> detect_tracking body = ('''', '''')"
    by (simp add: detect_tracking_def carrier_patterns_def)
  have e1: "(pre = [] \<or> \<not> is_word (last pre)) \<and> (post = [] \<or> \<not> is_word (hd post))
      \<longrightarrow> fst (detect_tracking (pre @ ''1Z999AA10123456784'' @ post)) = ''UPS''"
    using ups_example [of pre post] by blast
  have ups: "detect_tracking ''1Z999AA10123456784'' = (''UPS'', ''1Z999AA10123456784'')"
    by code_simp
  have e2: "list_all is_digit ds \<and> length ds = 21
      \<longrightarrow> detect_tracking (CHR ''9'' # ds) = (''USPS'', CHR ''9'' # ds)"
    using usps_example [of ds] by blast
  have e3: "list_all is_digit ts \<and> length ts = 10 \<longrightarrow> detect_tracking ts = (''DHL'', ts)"
    using dhl_example [of ts] by blast
  have tba: "detect_tracking ''TBA123456789012'' = (''Amazon Logistics'', ''TBA123456789012'')"
    by code_simp
  have g2: "list_all is_digit ds \<and> length ds = 21
      \<and> (pre = [] \<or> \<not> is_word (last pre)) \<and> (post = [] \<or> \<not> is_word (hd post))
      \<and> re_search RE_UPS (pre @ CHR ''9'' # ds @ post) = None
      \<longrightarrow> fst (detect_tracking (pre @ CHR ''9'' # ds @ post)) = ''USPS''"
    using usps_in_context [of ds pre post] by blast
  have g3: "list_all is_digit ts \<and> length ts = 10
      \<and> (pre = [] \<or> \<not> is_word (last pre)) \<and> (post = [] \<or> \<not> is_word (hd post))
      \<and> re_search RE_UPS (pre @ ts @ post) = None
      \<and> re_search RE_USPS (pre @ ts @ post) = None
      \<and> re_search RE_FEDEX (pre @ ts @ post) = None
      \<longrightarrow> fst (detect_tracking (pre @ ts @ post)) = ''DHL''"
    using dhl_in_context [of ts pre post] by blast
  have g4: "(pre = [] \<or> \<not> is_word (last pre)) \<and> (post = [] \<or> \<not> is_word (hd post))
      \<and> re_search RE_UPS (pre @ ''TBA123456789012'' @ post) = None
      \<and> re_search RE_USPS (pre @ ''TBA123456789012'' @ post) = None
      \<and> re_search RE_FEDEX (pre @ ''TBA123456789012'' @ post) = None
      \<and> re_search RE_DHL (pre @ ''TBA123456789012'' @ post) = None
      \<longrightarrow> fst (detect_tracking (pre @ ''TBA123456789012'' @ post)) = ''Amazon Logistics''"
    using tba_in_context [of pre post] by blast
  from names hit miss p1 p2 p3 p4 p5 p6 e1 ups e2 e3 tba g2 g3 g4 show ?thesis
    by (intro conjI)
qed

text \<open>
  C3, the amended theorem at bodies where the hypotheses hold: one with a USPS number
  before a UPS number, one with a FedEx number only, one without any number, the literal
  examples alone, and the literal examples inside a sentence.
\<close>

theorem detect_tracking_first_match_witness:
  "(re_search RE_UPS ''Sent 9400100000000000000000 via 1Z999AA10123456784''
      = Some ''1Z999AA10123456784''
    \<and> re_search RE_USPS ''Sent 9400100000000000000000 via 1Z999AA10123456784''
      = Some ''9400100000000000000000''
    \<and> detect_tracking ''Sent 9400100000000000000000 via 1Z999AA10123456784''
      = (''UPS'', ''1Z999AA10123456784''))
   \<and> (re_search RE_UPS ''No 123456789012 here'' = None
    \<and> re_search RE_USPS ''No 123456789012 here'' = None
    \<and> re_search RE_FEDEX ''No 123456789012 here'' = Some ''123456789012''
    \<and> detect_tracking ''No 123456789012 here'' = (''FedEx'', ''123456789012''))
   \<and> (re_search RE_UPS ''Thanks for your order'' = None
    \<and> re_search RE_USPS ''Thanks for your order'' = None
    \<and> re_search RE_FEDEX ''Thanks for your order'' = None
    \<and> re_search RE_DHL ''Thanks for your order'' = None
    \<and> re_search RE_TBA ''Thanks for your order'' = None
    \<and> detect_tracking ''Thanks for your order'' = ('''', ''''))
   \<and> (\<not> is_word (last ''Tracking: '') \<and> \<not> is_word (hd ''.'')
    \<and> fst (detect_tracking (''Tracking: '' @ ''1Z999AA10123456784'' @ ''.'')) = ''UPS'')
   \<and> (list_all is_digit ''400100000000000000000'' \<and> length ''400100000000000000000'' = 21
    \<and> detect_tracking (CHR ''9'' # ''400100000000000000000'')
      = (''USPS'', CHR ''9'' # ''400100000000000000000''))
   \<and> (list_all is_digit ''1234567890'' \<and> length ''1234567890'' = 10
    \<and> detect_tracking ''1234567890'' = (''DHL'', ''1234567890''))
   \<and> (re_search RE_UPS (''USPS '' @ CHR ''9'' # ''400100000000000000000'' @ ''.'') = None
    \<and> fst (detect_tracking (''USPS '' @ CHR ''9'' # ''400100000000000000000'' @ ''.''))
      = ''USPS'')
   \<and> (re_search RE_UPS (''DHL: '' @ ''1234567890'' @ '', thanks'') = None
    \<and> re_search RE_USPS (''DHL: '' @ ''1234567890'' @ '', thanks'') = None
    \<and> re_search RE_FEDEX (''DHL: '' @ ''1234567890'' @ '', thanks'') = None
    \<and> fst (detect_tracking (''DHL: '' @ ''1234567890'' @ '', thanks'')) = ''DHL'')
   \<and> (re_search RE_UPS (''Parcel '' @ ''TBA123456789012'' @ '' is here'') = None
    \<and> re_search RE_USPS (''Parcel '' @ ''TBA123456789012'' @ '' is here'') = None
    \<and> re_search RE_FEDEX (''Parcel '' @ ''TBA123456789012'' @ '' is here'') = None
    \<and> re_search RE_DHL (''Parcel '' @ ''TBA123456789012'' @ '' is here'') = None
    \<and> fst (detect_tracking (''Parcel '' @ ''TBA123456789012'' @ '' is here''))
      = ''Amazon Logistics'')"
proof -
  have a1: "re_search RE_UPS ''Sent 9400100000000000000000 via 1Z999AA10123456784''
      = Some ''1Z999AA10123456784''" by code_simp
  have a2: "re_search RE_USPS ''Sent 9400100000000000000000 via 1Z999AA10123456784''
      = Some ''9400100000000000000000''" by code_simp
  have b1: "re_search RE_UPS ''No 123456789012 here'' = None" by code_simp
  have b2: "re_search RE_USPS ''No 123456789012 here'' = None" by code_simp
  have b3: "re_search RE_FEDEX ''No 123456789012 here'' = Some ''123456789012''" by code_simp
  have c1: "re_search RE_UPS ''Thanks for your order'' = None" by code_simp
  have c2: "re_search RE_USPS ''Thanks for your order'' = None" by code_simp
  have c3: "re_search RE_FEDEX ''Thanks for your order'' = None" by code_simp
  have c4: "re_search RE_DHL ''Thanks for your order'' = None" by code_simp
  have c5: "re_search RE_TBA ''Thanks for your order'' = None" by code_simp
  have d1: "\<not> is_word (last ''Tracking: '')" by code_simp
  have d2: "\<not> is_word (hd ''.'')" by code_simp
  have e1: "list_all is_digit ''400100000000000000000''" by code_simp
  have e2: "length ''400100000000000000000'' = 21" by simp
  have f1: "list_all is_digit ''1234567890''" by code_simp
  have f2: "length ''1234567890'' = 10" by simp
  note t1 = detect_tracking_first_match
      [where body = "''Sent 9400100000000000000000 via 1Z999AA10123456784''"
         and m = "''1Z999AA10123456784''"]
  note t2 = detect_tracking_first_match
      [where body = "''No 123456789012 here''" and m = "''123456789012''"]
  note t3 = detect_tracking_first_match
      [where body = "''Thanks for your order''" and pre = "''Tracking: ''" and post = "''.''"
         and ds = "''400100000000000000000''" and ts = "''1234567890''"]
  have i1: "re_search RE_UPS ''Sent 9400100000000000000000 via 1Z999AA10123456784''
        = Some ''1Z999AA10123456784''
      \<longrightarrow> detect_tracking ''Sent 9400100000000000000000 via 1Z999AA10123456784''
        = (''UPS'', ''1Z999AA10123456784'')"
    by (rule t1 [THEN conjunct2, THEN conjunct2, THEN conjunct2, THEN conjunct1])
  have r1: "detect_tracking ''Sent 9400100000000000000000 via 1Z999AA10123456784''
      = (''UPS'', ''1Z999AA10123456784'')"
    using i1 a1 by (rule mp)
  have i2: "re_search RE_UPS ''No 123456789012 here'' = None
      \<and> re_search RE_USPS ''No 123456789012 here'' = None
      \<and> re_search RE_FEDEX ''No 123456789012 here'' = Some ''123456789012''
      \<longrightarrow> detect_tracking ''No 123456789012 here'' = (''FedEx'', ''123456789012'')"
    by (rule t2 [THEN conjunct2, THEN conjunct2, THEN conjunct2, THEN conjunct2,
        THEN conjunct2, THEN conjunct1])
  have r2: "detect_tracking ''No 123456789012 here'' = (''FedEx'', ''123456789012'')"
    using b1 b2 b3 by (intro mp [OF i2] conjI)
  have i3: "re_search RE_UPS ''Thanks for your order'' = None
      \<and> re_search RE_USPS ''Thanks for your order'' = None
      \<and> re_search RE_FEDEX ''Thanks for your order'' = None
      \<and> re_search RE_DHL ''Thanks for your order'' = None
      \<and> re_search RE_TBA ''Thanks for your order'' = None
      \<longrightarrow> detect_tracking ''Thanks for your order'' = ('''', '''')"
    by (rule t3 [THEN conjunct2, THEN conjunct2, THEN conjunct2, THEN conjunct2,
        THEN conjunct2, THEN conjunct2, THEN conjunct2, THEN conjunct2, THEN conjunct1])
  have r3: "detect_tracking ''Thanks for your order'' = ('''', '''')"
    using c1 c2 c3 c4 c5 by (intro mp [OF i3] conjI)
  have i4: "(''Tracking: '' = [] \<or> \<not> is_word (last ''Tracking: ''))
      \<and> (''.'' = [] \<or> \<not> is_word (hd ''.''))
      \<longrightarrow> fst (detect_tracking (''Tracking: '' @ ''1Z999AA10123456784'' @ ''.'')) = ''UPS''"
    by (rule t3 [THEN conjunct2, THEN conjunct2, THEN conjunct2, THEN conjunct2,
        THEN conjunct2, THEN conjunct2, THEN conjunct2, THEN conjunct2, THEN conjunct2,
        THEN conjunct1])
  have r4: "fst (detect_tracking (''Tracking: '' @ ''1Z999AA10123456784'' @ ''.'')) = ''UPS''"
    using d1 d2 by (intro mp [OF i4] conjI disjI2)
  have i5: "list_all is_digit ''400100000000000000000'' \<and> length ''400100000000000000000'' = 21
      \<longrightarrow> detect_tracking (CHR ''9'' # ''400100000000000000000'')
        = (''USPS'', CHR ''9'' # ''400100000000000000000'')"
    by (rule t3 [THEN conjunct2, THEN conjunct2, THEN conjunct2, THEN conjunct2,
        THEN conjunct2, THEN conjunct2, THEN conjunct2, THEN conjunct2, THEN conjunct2,
        THEN conjunct2, THEN conjunct2, THEN conjunct1])
  have r5: "detect_tracking (CHR ''9'' # ''400100000000000000000'')
      = (''USPS'', CHR ''9'' # ''400100000000000000000'')"
    using e1 e2 by (intro mp [OF i5] conjI)
  have i6: "list_all is_digit ''1234567890'' \<and> length ''1234567890'' = 10
      \<longrightarrow> detect_tracking ''1234567890'' = (''DHL'', ''1234567890'')"
    by (rule t3 [THEN conjunct2, THEN conjunct2, THEN conjunct2, THEN conjunct2,
        THEN conjunct2, THEN conjunct2, THEN conjunct2, THEN conjunct2, THEN conjunct2,
        THEN conjunct2, THEN conjunct2, THEN conjunct2, THEN conjunct1])
  have r6: "detect_tracking ''1234567890'' = (''DHL'', ''1234567890'')"
    using f1 f2 by (intro mp [OF i6] conjI)
  note t4 = detect_tracking_first_match
      [where pre = "''USPS ''" and post = "''.''" and ds = "''400100000000000000000''"]
  note t5 = detect_tracking_first_match
      [where pre = "''DHL: ''" and post = "'', thanks''" and ts = "''1234567890''"]
  note t6 = detect_tracking_first_match
      [where pre = "''Parcel ''" and post = "'' is here''"]
  have u1: "''USPS '' = [] \<or> \<not> is_word (last ''USPS '')" by (rule disjI2) code_simp
  have u2: "''.'' = [] \<or> \<not> is_word (hd ''.'')" by (rule disjI2) code_simp
  have u3: "re_search RE_UPS (''USPS '' @ CHR ''9'' # ''400100000000000000000'' @ ''.'') = None"
    by code_simp
  have i7: "list_all is_digit ''400100000000000000000'' \<and> length ''400100000000000000000'' = 21
      \<and> (''USPS '' = [] \<or> \<not> is_word (last ''USPS ''))
      \<and> (''.'' = [] \<or> \<not> is_word (hd ''.''))
      \<and> re_search RE_UPS (''USPS '' @ CHR ''9'' # ''400100000000000000000'' @ ''.'') = None
      \<longrightarrow> fst (detect_tracking (''USPS '' @ CHR ''9'' # ''400100000000000000000'' @ ''.''))
        = ''USPS''"
    by (rule t4 [THEN conjunct2, THEN conjunct2, THEN conjunct2, THEN conjunct2,
        THEN conjunct2, THEN conjunct2, THEN conjunct2, THEN conjunct2, THEN conjunct2,
        THEN conjunct2, THEN conjunct2, THEN conjunct2, THEN conjunct2, THEN conjunct2,
        THEN conjunct1])
  have r7: "fst (detect_tracking (''USPS '' @ CHR ''9'' # ''400100000000000000000'' @ ''.''))
      = ''USPS''"
    using e1 e2 u1 u2 u3 by (intro mp [OF i7] conjI)
  have v1: "''DHL: '' = [] \<or> \<not> is_word (last ''DHL: '')" by (rule disjI2) code_simp
  have v2: "'', thanks'' = [] \<or> \<not> is_word (hd '', thanks'')" by (rule disjI2) code_simp
  have v3: "re_search RE_UPS (''DHL: '' @ ''1234567890'' @ '', thanks'') = None" by code_simp
  have v4: "re_search RE_USPS (''DHL: '' @ ''1234567890'' @ '', thanks'') = None" by code_simp
  have v5: "re_search RE_FEDEX (''DHL: '' @ ''1234567890'' @ '', thanks'') = None" by code_simp
  have i8: "list_all is_digit ''1234567890'' \<and> length ''1234567890'' = 10
      \<and> (''DHL: '' = [] \<or> \<not> is_word (last ''DHL: ''))
      \<and> ('', thanks'' = [] \<or> \<not> is_word (hd '', thanks''))
      \<and> re_search RE_UPS (''DHL: '' @ ''1234567890'' @ '', thanks'') = None
      \<and> re_search RE_USPS (''DHL: '' @ ''1234567890'' @ '', thanks'') = None
      \<and> re_search RE_FEDEX (''DHL: '' @ ''1234567890'' @ '', thanks'') = None
      \<longrightarrow> fst (detect_tracking (''DHL: '' @ ''1234567890'' @ '', thanks'')) = ''DHL''"
    by (rule t5 [THEN conjunct2, THEN conjunct2, THEN conjunct2, THEN conjunct2,
        THEN conjunct2, THEN conjunct2, THEN conjunct2, THEN conjunct2, THEN conjunct2,
        THEN conjunct2, THEN conjunct2, THEN conjunct2, THEN conjunct2, THEN conjunct2,
        THEN conjunct2, THEN conjunct1])
  have r8: "fst (detect_tracking (''DHL: '' @ ''1234567890'' @ '', thanks'')) = ''DHL''"
    using f1 f2 v1 v2 v3 v4 v5 by (intro mp [OF i8] conjI)
  have w1: "''Parcel '' = [] \<or> \<not> is_word (last ''Parcel '')" by (rule disjI2) code_simp
  have w2: "'' is here'' = [] \<or> \<not> is_word (hd '' is here'')" by (rule disjI2) code_simp
  have w3: "re_search RE_UPS (''Parcel '' @ ''TBA123456789012'' @ '' is here'') = None"
    by code_simp
  have w4: "re_search RE_USPS (''Parcel '' @ ''TBA123456789012'' @ '' is here'') = None"
    by code_simp
  have w5: "re_search RE_FEDEX (''Parcel '' @ ''TBA123456789012'' @ '' is here'') = None"
    by code_simp
  have w6: "re_search RE_DHL (''Parcel '' @ ''TBA123456789012'' @ '' is here'') = None"
    by code_simp
  have i9: "(''Parcel '' = [] \<or> \<not> is_word (last ''Parcel ''))
      \<and> ('' is here'' = [] \<or> \<not> is_word (hd '' is here''))
      \<and> re_search RE_UPS (''Parcel '' @ ''TBA123456789012'' @ '' is here'') = None
      \<and> re_search RE_USPS (''Parcel '' @ ''TBA123456789012'' @ '' is here'') = None
      \<and> re_search RE_FEDEX (''Parcel '' @ ''TBA123456789012'' @ '' is here'') = None
      \<and> re_search RE_DHL (''Parcel '' @ ''TBA123456789012'' @ '' is here'') = None
      \<longrightarrow> fst (detect_tracking (''Parcel '' @ ''TBA123456789012'' @ '' is here''))
        = ''Amazon Logistics''"
    by (rule t6 [THEN conjunct2, THEN conjunct2, THEN conjunct2, THEN conjunct2,
        THEN conjunct2, THEN conjunct2, THEN conjunct2, THEN conjunct2, THEN conjunct2,
        THEN conjunct2, THEN conjunct2, THEN conjunct2, THEN conjunct2, THEN conjunct2,
        THEN conjunct2, THEN conjunct2])
  have r9: "fst (detect_tracking (''Parcel '' @ ''TBA123456789012'' @ '' is here''))
      = ''Amazon Logistics''"
    using w1 w2 w3 w4 w5 w6 by (intro mp [OF i9] conjI)
  from a1 a2 b1 b2 b3 c1 c2 c3 c4 c5 d1 d2 e1 e2 f1 f2 r1 r2 r3 r4 r5 r6
    u3 r7 v3 v4 v5 r8 w3 w4 w5 w6 r9
  show ?thesis by (intro conjI)
qed

lemma re_search_nonempty:
  assumes "re_search rx body = Some m" and "0 < min_len rx"
  shows "m \<noteq> []"
proof -
  from assms(1) have "min_len rx \<le> length m"
    unfolding re_search_def by (rule rsearch_bounds [THEN conjunct1])
  with assms(2) show ?thesis by auto
qed

lemma detect_loop_both_or_none:
  assumes "\<forall>p \<in> set ps. fst p \<noteq> [] \<and> 0 < min_len (snd p)"
  shows "fst (detect_loop ps body) = [] \<longleftrightarrow> snd (detect_loop ps body) = []"
  using assms
proof (induction ps)
  case Nil
  then show ?case by simp
next
  case (Cons p ps)
  obtain name rx where p: "p = (name, rx)" by (cases p)
  show ?case
  proof (cases "re_search rx body")
    case None
    with p Cons show ?thesis by simp
  next
    case (Some m)
    from Cons.prems p have "name \<noteq> []" and "0 < min_len rx" by simp_all
    with Some re_search_nonempty [OF Some] p show ?thesis by simp
  qed
qed

lemma detect_loop_name:
  "fst (detect_loop ps body) = [] \<or> fst (detect_loop ps body) \<in> fst ` set ps"
proof (induction ps)
  case Nil
  then show ?case by simp
next
  case (Cons p ps)
  obtain name rx where p: "p = (name, rx)" by (cases p)
  show ?case
  proof (cases "re_search rx body")
    case None
    with p Cons show ?thesis by auto
  next
    case (Some m)
    with p show ?thesis by simp
  qed
qed

lemma carrier_patterns_sound: "\<forall>p \<in> set carrier_patterns. fst p \<noteq> [] \<and> 0 < min_len (snd p)"
  by (simp add: carrier_patterns_def min_len_patterns)

lemma detect_tracking_both_or_none:
  "fst (detect_tracking body) = [] \<longleftrightarrow> snd (detect_tracking body) = []"
  unfolding detect_tracking_def
  using carrier_patterns_sound by (rule detect_loop_both_or_none)

subsection \<open>Mailbox search\<close>

lemma split_acc_token:
  "list_all (\<lambda>c. \<not> is_bspace c) t \<Longrightarrow> split_acc cur (t @ rest) = split_acc (cur @ t) rest"
  by (induction t arbitrary: cur) simp_all

lemma blank_is_bspace: "is_bspace CHR '' ''"
  by code_simp

lemma split_acc_join: "list_all is_id ids \<Longrightarrow> split_acc [] (join_ids ids) = ids"
proof (induction ids rule: join_ids.induct)
  case 1
  then show ?case by simp
next
  case (2 i)
  then have "list_all (\<lambda>c. \<not> is_bspace c) i" and "i \<noteq> []" by (simp_all add: is_id_def)
  with split_acc_token [of i "[]" "[]"] show ?case by simp
next
  case (3 i j ids)
  then have t: "list_all (\<lambda>c. \<not> is_bspace c) i" and n: "i \<noteq> []"
    and r: "split_acc [] (join_ids (j # ids)) = j # ids"
    by (simp_all add: is_id_def)
  have "split_acc [] (join_ids (i # j # ids)) = split_acc i (CHR '' '' # join_ids (j # ids))"
    using split_acc_token [OF t, of "[]" "CHR '' '' # join_ids (j # ids)"] by simp
  also have "\<dots> = i # split_acc [] (join_ids (j # ids))"
    using n blank_is_bspace by simp
  finally show ?case using r by simp
qed

lemma split_ws_join: "list_all is_id ids \<Longrightarrow> split_ws (join_ids ids) = ids"
  unfolding split_ws_def by (rule split_acc_join)

lemma join_ids_nonempty: "ids \<noteq> [] \<Longrightarrow> list_all is_id ids \<Longrightarrow> join_ids ids \<noteq> []"
  by (induction ids rule: join_ids.induct) (simp_all add: is_id_def)

lemma search_latest_last_id:
  assumes "imap_search im (search_criterion ord st) = (''OK'', Some d # dmore)"
    and "split_ws d = i # ids"
    and "imap_fetch im (last (i # ids)) = (''OK'', PairItem env raw # rest)"
  shows "search_latest_for_order parse im ord st = Inr (Some (parse raw))"
proof -
  have "d \<noteq> []" using assms(2) by (auto simp add: split_ws_def)
  then have "\<not> no_data (Some d # dmore)" by (simp add: no_data_def)
  moreover have "\<not> no_msg_data (PairItem env raw # rest)" by (simp add: no_msg_data_def)
  ultimately show ?thesis
    using assms by (simp add: search_latest_for_order_def)
qed

lemma search_latest_no_match:
  assumes "imap_search im (search_criterion ord st) = (ty, data)"
    and "ty \<noteq> ''OK'' \<or> no_data data"
  shows "search_latest_for_order parse im ord st = Inr None"
  using assms by (auto simp add: search_latest_for_order_def)

lemma search_latest_fetch_fails:
  assumes "imap_search im (search_criterion ord st) = (ty, data)"
    and "split_ws (the (hd data)) = i # ids"
    and "imap_fetch im (last (i # ids)) = (fty, msg_data)"
    and "fty \<noteq> ''OK'' \<or> no_msg_data msg_data"
  shows "search_latest_for_order parse im ord st = Inr None"
  using assms by (auto simp add: search_latest_for_order_def)

text \<open>
  C8: when the search response lists one or more ids, the message returned is the parse of
  what the store sends for the id that is last in the response, whether the ids are given
  as a list joined by blanks or as any bytes that \<open>split()\<close> cuts into ids; nothing else
  about the ids is looked at. When the search yields no match (the status is not \<open>OK\<close>, or
  the data are missing, \<open>None\<close> or empty bytes), the result is \<open>None\<close> and not an error.
\<close>

theorem search_latest_selects_last_id:
  "(imap_search im (search_criterion ord st) = (''OK'', Some (join_ids ids) # dmore)
      \<and> ids \<noteq> [] \<and> list_all is_id ids
      \<and> imap_fetch im (last ids) = (''OK'', PairItem env raw # rest)
      \<longrightarrow> search_latest_for_order parse im ord st = Inr (Some (parse raw)))
   \<and> (imap_search im (search_criterion ord st) = (''OK'', Some d # dmore)
      \<and> split_ws d = i # js
      \<and> imap_fetch im (last (i # js)) = (''OK'', PairItem env raw # rest)
      \<longrightarrow> search_latest_for_order parse im ord st = Inr (Some (parse raw)))
   \<and> (imap_search im (search_criterion ord st) = (ty, data) \<and> (ty \<noteq> ''OK'' \<or> no_data data)
      \<longrightarrow> search_latest_for_order parse im ord st = Inr None)
   \<and> no_data [] \<and> no_data [None] \<and> no_data [Some '''']"
proof (intro conjI impI)
  assume a: "imap_search im (search_criterion ord st) = (''OK'', Some (join_ids ids) # dmore)
      \<and> ids \<noteq> [] \<and> list_all is_id ids
      \<and> imap_fetch im (last ids) = (''OK'', PairItem env raw # rest)"
  then obtain k ks where ids: "ids = k # ks" by (cases ids) auto
  from a have "split_ws (join_ids ids) = k # ks" by (simp add: split_ws_join ids)
  with a ids show "search_latest_for_order parse im ord st = Inr (Some (parse raw))"
    by (intro search_latest_last_id [of im ord st "join_ids ids" dmore k ks env raw rest]) simp_all
next
  assume "imap_search im (search_criterion ord st) = (''OK'', Some d # dmore)
      \<and> split_ws d = i # js
      \<and> imap_fetch im (last (i # js)) = (''OK'', PairItem env raw # rest)"
  then show "search_latest_for_order parse im ord st = Inr (Some (parse raw))"
    by (intro search_latest_last_id [of im ord st d dmore i js env raw rest]) simp_all
next
  assume "imap_search im (search_criterion ord st) = (ty, data) \<and> (ty \<noteq> ''OK'' \<or> no_data data)"
  then show "search_latest_for_order parse im ord st = Inr None"
    by (intro search_latest_no_match [of im ord st ty data]) simp_all
qed (simp_all add: no_data_def)

text \<open>
  C8, the theorem on the example mailbox: the search for order \<open>A-1\<close> of site \<open>acme\<close> lists
  the ids 3 and 7 and the message of id 7 is returned; the search for order \<open>B-2\<close> lists
  nothing and the result is \<open>None\<close>.
\<close>

theorem search_latest_selects_last_id_witness:
  "search_latest_for_order (message_from_bytes example_lib) example_imap ''A-1'' ''acme''
     = Inr (Some (message_from_bytes example_lib ''raw-7''))
   \<and> search_latest_for_order (message_from_bytes example_lib) example_imap ''B-2'' '''' = Inr None"
proof -
  note t1 = search_latest_selects_last_id
    [where im = example_imap and ord = "''A-1''" and st = "''acme''" and ids = "[''3'', ''7'']"
       and dmore = "[]" and env = "''7 (RFC822 {120}''" and raw = "''raw-7''"
       and rest = "[BytesItem '')'']" and parse = "message_from_bytes example_lib"]
  note t2 = search_latest_selects_last_id
    [where im = example_imap and ord = "''B-2''" and st = "''''" and ty = "''OK''"
       and data = "[Some '''']" and parse = "message_from_bytes example_lib"]
  have a: "imap_search example_imap (search_criterion ''A-1'' ''acme'')
      = (''OK'', Some (join_ids [''3'', ''7'']) # [])"
    by code_simp
  have b: "[''3'', ''7''] \<noteq> ([] :: string list)" by simp
  have c: "list_all is_id [''3'', ''7'']" by code_simp
  have d: "imap_fetch example_imap (last [''3'', ''7''])
      = (''OK'', PairItem ''7 (RFC822 {120}'' ''raw-7'' # [BytesItem '')''])"
    by code_simp
  have e: "imap_search example_imap (search_criterion ''B-2'' '''') = (''OK'', [Some ''''])"
    by code_simp
  have f: "no_data [Some '''']" by (simp add: no_data_def)
  have r1: "search_latest_for_order (message_from_bytes example_lib) example_imap ''A-1'' ''acme''
      = Inr (Some (message_from_bytes example_lib ''raw-7''))"
    using a b c d by (intro mp [OF t1 [THEN conjunct1]] conjI)
  have r2: "search_latest_for_order (message_from_bytes example_lib) example_imap ''B-2'' ''''
      = Inr None"
    using e f
    by (intro mp [OF t2 [THEN conjunct2, THEN conjunct2, THEN conjunct1]] conjI disjI2)
  from r1 r2 show ?thesis by (intro conjI)
qed

subsection \<open>Header decoding\<close>

lemma dec_empty: "dec dh cd [] = Inr []"
  by (simp add: dec_def)

lemma dec_loop_known:
  assumes "\<forall>c \<in> set chunks. \<forall>b. fst c = BytesChunk b \<longrightarrow> cd (or_utf8 (snd c)) \<noteq> None"
  shows "\<exists>t. dec_loop cd chunks out = Inr t"
  using assms
proof (induction cd chunks out rule: dec_loop.induct)
  case (1 cd out)
  then show ?case by simp
next
  case (2 cd t enc rest out)
  then show ?case by simp
next
  case (3 cd b enc rest out)
  from "3.prems" obtain f where f: "cd (or_utf8 enc) = Some f" by auto
  from "3.prems" have "\<forall>c \<in> set rest. \<forall>b. fst c = BytesChunk b \<longrightarrow> cd (or_utf8 (snd c)) \<noteq> None"
    by simp
  with "3.IH" [OF f] f show ?case by simp
qed

lemma dec_loop_text_only: "dec_loop cd [(StrChunk t, enc)] [] = Inr t"
  by simp

text \<open>
  C7 says that header decoding never raises, and that a chunk whose declared encoding is
  invalid is taken as text already decoded. \<open>dec\<close> does neither for a character set that
  the codec registry does not know: the subject \<open>=?x-unknown?B?aGVsbG8=?=\<close> splits into
  the bytes \<open>hello\<close> with the character set \<open>x-unknown\<close>, and decoding them raises
  \<open>LookupError\<close>, which \<open>dec\<close> does not catch.
\<close>

theorem dec_unknown_charset_raises:
  "decode_header example_lib ''=?x-unknown?B?aGVsbG8=?=''
     = [(BytesChunk ''hello'', Some ''x-unknown'')]
   \<and> codec example_lib ''x-unknown'' = None
   \<and> dec (decode_header example_lib) (codec example_lib) ''=?x-unknown?B?aGVsbG8=?=''
     = Inl LookupError"
  by code_simp

subsection \<open>Pipeline driver\<close>

lemma main_step_skip: "row_order r = [] \<Longrightarrow> main_step lib im r = Inr None"
  by (simp add: main_step_def Let_def)

lemma main_step_fields:
  assumes "main_step lib im r = Inr (Some out)"
  shows "row_order r \<noteq> [] \<and> order_number out = row_order r \<and> site out = row_site r
    \<and> (carrier out = [] \<longleftrightarrow> tracking out = [])"
proof -
  have n: "row_order r \<noteq> []"
    using assms by (auto simp add: main_step_def Let_def)
  obtain res where s: "search_latest_for_order (message_from_bytes lib) im (row_order r)
      (row_site r) = res" by simp
  show ?thesis
  proof (cases "\<exists>m. res = Inr m \<and> not_msg m")
    case True
    with assms n s have "out = pending_row (row_order r) (row_site r)"
      by (auto simp add: main_step_def Let_def)
    with n show ?thesis by (simp add: pending_row_def)
  next
    case False
    with assms n s show ?thesis
      by (auto simp add: main_step_def Let_def detect_tracking_both_or_none
          split: sum.splits if_splits)
  qed
qed

lemma main_step_emits:
  assumes "row_order r \<noteq> []" and "main_step lib im r = Inr x"
  shows "x \<noteq> None"
  using assms by (auto simp add: main_step_def Let_def split: sum.splits if_splits)

lemma main_step_unmatched:
  assumes "row_order r \<noteq> []"
    and "search_latest_for_order (message_from_bytes lib) im (row_order r) (row_site r) = Inr None"
  shows "main_step lib im r = Inr (Some (pending_row (row_order r) (row_site r)))"
  using assms by (simp add: main_step_def Let_def not_msg_def)

lemma main_loop_invariant:
  assumes "\<forall>out \<in> set written. Q out"
    and "\<And>r out. main_step lib im r = Inr (Some out) \<Longrightarrow> Q out"
  shows "\<forall>out \<in> set (fst (main_loop lib im rows written)). Q out"
  using assms(1)
proof (induction rows arbitrary: written)
  case Nil
  then show ?case by simp
next
  case (Cons r rs)
  show ?case
  proof (cases "main_step lib im r")
    case (Inl e)
    with Cons.prems show ?thesis by simp
  next
    case (Inr x)
    show ?thesis
    proof (cases x)
      case None
      with Inr Cons show ?thesis by simp
    next
      case (Some out)
      with Inr have "Q out" by (intro assms(2) [of r out]) simp
      with Cons.prems have "\<forall>w \<in> set (written @ [out]). Q w" by simp
      from Cons.IH [OF this] Inr Some show ?thesis by simp
    qed
  qed
qed

text \<open>
  When no row makes the loop body raise, the loop ends without an exception and writes,
  in the order of the input, one row for each input row with an order number, with the
  order number and the site of that input row.
\<close>

lemma main_loop_rows_without_exception:
  assumes "\<forall>r \<in> set rows. \<forall>e. main_step lib im r \<noteq> Inl e"
  shows "snd (main_loop lib im rows written) = None
    \<and> map (\<lambda>out. (order_number out, site out)) (fst (main_loop lib im rows written))
      = map (\<lambda>out. (order_number out, site out)) written
        @ map (\<lambda>r. (row_order r, row_site r)) (filter (\<lambda>r. row_order r \<noteq> []) rows)"
  using assms
proof (induction rows arbitrary: written)
  case Nil
  then show ?case by simp
next
  case (Cons r rs)
  from Cons.prems obtain x where x: "main_step lib im r = Inr x"
    by (cases "main_step lib im r") auto
  from Cons.prems have rest: "\<forall>r \<in> set rs. \<forall>e. main_step lib im r \<noteq> Inl e" by simp
  show ?case
  proof (cases x)
    case None
    with x main_step_emits [of r lib im x] have "row_order r = []" by auto
    with x None Cons.IH [OF rest, of written] show ?thesis by simp
  next
    case (Some out)
    with x main_step_fields [of lib im r out]
    have "row_order r \<noteq> []" "order_number out = row_order r" "site out = row_site r"
      by simp_all
    with x Some Cons.IH [OF rest, of "written @ [out]"] show ?thesis by simp
  qed
qed

text \<open>
  C9: the extractor returns a carrier name exactly when it returns a tracking number, the
  name is one of the five of the pattern list, the row of an order without a message has
  neither, and so in every row that the loop writes the carrier is empty if and only if the
  tracking number is empty.
\<close>

theorem carrier_empty_iff_tracking_empty:
  "(fst (detect_tracking body) = [] \<longleftrightarrow> snd (detect_tracking body) = [])
   \<and> fst (detect_tracking body)
       \<in> {[], ''UPS'', ''USPS'', ''FedEx'', ''DHL'', ''Amazon Logistics''}
   \<and> carrier (pending_row ord st) = [] \<and> tracking (pending_row ord st) = []
   \<and> (\<forall>out \<in> set (fst (main_loop lib im rows [])). carrier out = [] \<longleftrightarrow> tracking out = [])"
proof (intro conjI)
  show "fst (detect_tracking body) = [] \<longleftrightarrow> snd (detect_tracking body) = []"
    by (rule detect_tracking_both_or_none)
  show "fst (detect_tracking body) \<in> {[], ''UPS'', ''USPS'', ''FedEx'', ''DHL'', ''Amazon Logistics''}"
    using detect_loop_name [of carrier_patterns body]
    by (auto simp add: detect_tracking_def carrier_patterns_def)
  show "carrier (pending_row ord st) = []" by (simp add: pending_row_def)
  show "tracking (pending_row ord st) = []" by (simp add: pending_row_def)
  show "\<forall>out \<in> set (fst (main_loop lib im rows [])). carrier out = [] \<longleftrightarrow> tracking out = []"
    by (rule main_loop_invariant) (simp_all add: main_step_fields)
qed

text \<open>
  C9, the theorem on the example sheet: the row written for order \<open>A-1\<close> has the carrier UPS
  and a tracking number, the row written for order \<open>B-2\<close> has neither.
\<close>

theorem carrier_empty_iff_tracking_empty_witness:
  "\<lparr>order_number = ''A-1'', site = ''acme'', status = ''Shipped'',
     tracking = ''1Z999AA10123456784'', carrier = ''UPS'',
     email_date = ''Mon, 01 Jan 2024 10:00:00 +0000'', subject = ''Your order has shipped''\<rparr>
     \<in> set (fst (main_loop example_lib example_imap [row_A1, row_blank, row_B2, row_D4] []))
   \<and> pending_row ''B-2'' [] \<in> set (fst (main_loop example_lib example_imap
        [row_A1, row_blank, row_B2, row_D4] []))
   \<and> ((carrier (pending_row ''B-2'' []) = []) = (tracking (pending_row ''B-2'' []) = []))
   \<and> ((carrier \<lparr>order_number = ''A-1'', site = ''acme'', status = ''Shipped'',
          tracking = ''1Z999AA10123456784'', carrier = ''UPS'',
          email_date = ''Mon, 01 Jan 2024 10:00:00 +0000'',
          subject = ''Your order has shipped''\<rparr> = [])
      = (tracking \<lparr>order_number = ''A-1'', site = ''acme'', status = ''Shipped'',
          tracking = ''1Z999AA10123456784'', carrier = ''UPS'',
          email_date = ''Mon, 01 Jan 2024 10:00:00 +0000'',
          subject = ''Your order has shipped''\<rparr> = []))"
proof -
  have rows: "fst (main_loop example_lib example_imap [row_A1, row_blank, row_B2, row_D4] [])
      = [\<lparr>order_number = ''A-1'', site = ''acme'', status = ''Shipped'',
           tracking = ''1Z999AA10123456784'', carrier = ''UPS'',
           email_date = ''Mon, 01 Jan 2024 10:00:00 +0000'',
           subject = ''Your order has shipped''\<rparr>,
         pending_row ''B-2'' [], pending_row ''D-4'' []]"
    by code_simp
  have a: "\<lparr>order_number = ''A-1'', site = ''acme'', status = ''Shipped'',
       tracking = ''1Z999AA10123456784'', carrier = ''UPS'',
       email_date = ''Mon, 01 Jan 2024 10:00:00 +0000'', subject = ''Your order has shipped''\<rparr>
     \<in> set (fst (main_loop example_lib example_imap [row_A1, row_blank, row_B2, row_D4] []))"
    unfolding rows by simp
  have b: "pending_row ''B-2'' [] \<in> set (fst (main_loop example_lib example_imap
        [row_A1, row_blank, row_B2, row_D4] []))"
    unfolding rows by simp
  note t = carrier_empty_iff_tracking_empty
    [where lib = example_lib and im = example_imap
       and rows = "[row_A1, row_blank, row_B2, row_D4]",
     THEN conjunct2, THEN conjunct2, THEN conjunct2, THEN conjunct2]
  from a b bspec [OF t a] bspec [OF t b] show ?thesis by (intro conjI)
qed

text \<open>
  C5: for every row with an order number for which no message is found, because the
  search yields no match or because the store does not return the message of the selected
  id, the row written is the order number, the site, \<open>Pending\<close> and four empty fields,
  whatever the library functions that decode and classify a message would do.
\<close>

theorem unmatched_order_pending_row:
  assumes "row_order r \<noteq> []"
    and "imap_search im (search_criterion (row_order r) (row_site r)) = (ty, data)"
    and "ty \<noteq> ''OK'' \<or> no_data data
      \<or> (split_ws (the (hd data)) = i # ids \<and> imap_fetch im (last (i # ids)) = (fty, msg_data)
          \<and> (fty \<noteq> ''OK'' \<or> no_msg_data msg_data))"
  shows "search_latest_for_order (message_from_bytes lib) im (row_order r) (row_site r) = Inr None
    \<and> main_step lib im r
      = Inr (Some \<lparr>order_number = row_order r, site = row_site r, status = ''Pending'',
                   tracking = [], carrier = [], email_date = [], subject = []\<rparr>)"
proof -
  have s: "search_latest_for_order (message_from_bytes lib) im (row_order r) (row_site r)
      = Inr None"
  proof (cases "ty \<noteq> ''OK'' \<or> no_data data")
    case True
    with assms(2) show ?thesis by (rule search_latest_no_match)
  next
    case False
    with assms(3) have "split_ws (the (hd data)) = i # ids"
      and "imap_fetch im (last (i # ids)) = (fty, msg_data)"
      and "fty \<noteq> ''OK'' \<or> no_msg_data msg_data"
      by blast+
    with assms(2) show ?thesis by (rule search_latest_fetch_fails)
  qed
  from main_step_unmatched [OF assms(1) s] s show ?thesis
    by (simp add: pending_row_def)
qed

text \<open>
  C5, the theorem on the example sheet: order \<open>B-2\<close> has no match, and the store does not
  return message 4, the only match of order \<open>D-4\<close>.
\<close>

theorem unmatched_order_pending_row_witness:
  "main_step example_lib example_imap row_B2
     = Inr (Some \<lparr>order_number = ''B-2'', site = [], status = ''Pending'',
                  tracking = [], carrier = [], email_date = [], subject = []\<rparr>)
   \<and> main_step example_lib example_imap row_D4
     = Inr (Some \<lparr>order_number = ''D-4'', site = [], status = ''Pending'',
                  tracking = [], carrier = [], email_date = [], subject = []\<rparr>)"
proof -
  have ob: "row_order row_B2 = ''B-2''" and sb: "row_site row_B2 = []" by code_simp+
  have od: "row_order row_D4 = ''D-4''" and sd: "row_site row_D4 = []" by code_simp+
  have b1: "row_order row_B2 \<noteq> []" unfolding ob by simp
  have b2: "imap_search example_imap (search_criterion (row_order row_B2) (row_site row_B2))
      = (''OK'', [Some []])"
    unfolding ob sb by code_simp
  have b3: "no_data [Some []]" by (simp add: no_data_def)
  have d1: "row_order row_D4 \<noteq> []" unfolding od by simp
  have d2: "imap_search example_imap (search_criterion (row_order row_D4) (row_site row_D4))
      = (''OK'', [Some ''4''])"
    unfolding od sd by code_simp
  have d3: "split_ws (the (hd [Some ''4''])) = ''4'' # []" by code_simp
  have d4: "imap_fetch example_imap (last (''4'' # [])) = (''NO'', [NoItem])" by code_simp
  have d5: "''NO'' \<noteq> ''OK''" by simp
  have hb: "''OK'' \<noteq> ''OK'' \<or> no_data [Some []]
      \<or> (split_ws (the (hd [Some []])) = [] # [] \<and> imap_fetch example_imap (last ([] # []))
            = (''NO'', [])
          \<and> (''NO'' \<noteq> ''OK'' \<or> no_msg_data []))"
    using b3 by (intro disjI2 disjI1)
  have hd: "''OK'' \<noteq> ''OK'' \<or> no_data [Some ''4'']
      \<or> (split_ws (the (hd [Some ''4''])) = ''4'' # []
          \<and> imap_fetch example_imap (last (''4'' # [])) = (''NO'', [NoItem])
          \<and> (''NO'' \<noteq> ''OK'' \<or> no_msg_data [NoItem]))"
    using d3 d4 d5 by (intro disjI2 conjI disjI1)
  have rb: "main_step example_lib example_imap row_B2
      = Inr (Some \<lparr>order_number = row_order row_B2, site = row_site row_B2,
                   status = ''Pending'', tracking = [], carrier = [], email_date = [],
                   subject = []\<rparr>)"
    using unmatched_order_pending_row
      [where r = row_B2 and im = example_imap and lib = example_lib and ty = "''OK''"
         and data = "[Some []]" and i = "[]" and ids = "[]" and fty = "''NO''"
         and msg_data = "[]", OF b1 b2 hb]
    by (rule conjunct2)
  have rd: "main_step example_lib example_imap row_D4
      = Inr (Some \<lparr>order_number = row_order row_D4, site = row_site row_D4,
                   status = ''Pending'', tracking = [], carrier = [], email_date = [],
                   subject = []\<rparr>)"
    using unmatched_order_pending_row
      [where r = row_D4 and im = example_imap and lib = example_lib and ty = "''OK''"
         and data = "[Some ''4'']" and i = "''4''" and ids = "[]" and fty = "''NO''"
         and msg_data = "[NoItem]", OF d1 d2 hd]
    by (rule conjunct2)
  from rb rd show ?thesis unfolding ob sb od sd by (intro conjI)
qed

text \<open>
  C4 says that every row with an order number gets its output row and that a failure to
  decode one order's message never keeps later orders from theirs. The loop does not keep
  that promise when a header has an unknown character set: on the sheet with order \<open>C-3\<close>,
  whose latest message has the subject \<open>=?x-unknown?B?aGVsbG8=?=\<close>, before order \<open>A-1\<close>,
  the exception of \<open>dec\<close> ends the loop with no row written, although order \<open>A-1\<close>, on a
  sheet of its own, gets its row.
\<close>

theorem main_loop_stops_at_header_error:
  "row_order row_C3 = ''C-3'' \<and> row_order row_A1 = ''A-1''
   \<and> main_loop example_lib example_imap [row_C3, row_A1] [] = ([], Some LookupError)
   \<and> main_loop example_lib example_imap [row_A1] []
     = ([\<lparr>order_number = ''A-1'', site = ''acme'', status = ''Shipped'',
           tracking = ''1Z999AA10123456784'', carrier = ''UPS'',
           email_date = ''Mon, 01 Jan 2024 10:00:00 +0000'',
           subject = ''Your order has shipped''\<rparr>], None)"
proof -
  have a: "row_order row_C3 = ''C-3''" by code_simp
  have b: "row_order row_A1 = ''A-1''" by code_simp
  have c: "main_loop example_lib example_imap [row_C3, row_A1] [] = ([], Some LookupError)"
    by code_simp
  have d: "main_loop example_lib example_imap [row_A1] []
     = ([\<lparr>order_number = ''A-1'', site = ''acme'', status = ''Shipped'',
           tracking = ''1Z999AA10123456784'', carrier = ''UPS'',
           email_date = ''Mon, 01 Jan 2024 10:00:00 +0000'',
           subject = ''Your order has shipped''\<rparr>], None)"
    by code_simp
  from a b c d show ?thesis by (intro conjI)
qed

subsection \<open>From HTML to text\<close>











subsection \<open>Body extraction\<close>





lemma shipped_html_text:
  "html_to_text f ''<b>Your order has shipped</b>'' = '' Your order has shipped ''"
proof -
  have "collapse_ws (strip_tags ''<b>Your order has shipped</b>'') = '' Your order has shipped ''"
    by code_simp
  then show ?thesis by (simp add: html_to_text_def unescape_def)
qed








end
